theory Spec2Isabelle
  imports Main "HOL-Library.Sublist" "HOL-Library.AList" "HOL-Library.Word"
begin

section \<open>Python values, exceptions and the external libraries\<close>

text \<open>
  Exceptions are values. Each constructor is a Python exception class; the string carries
  the message (or, for \<open>KeyError\<close>, the key) that the raise site gives it.
\<close>

datatype error =
    ValueError string
  | KeyError string
  | TypeError
  | AssertionError
  | FileNotFoundError
  | NotADirectoryError
  | IsADirectoryError
  | FileExistsError
  | PermissionError
  | ParserError
  | ExportError string

text \<open>
  \<open>ParserError\<close> stands for the error of a reader (\<open>json.load\<close>, \<open>pandas.read_csv\<close>,
  \<open>numpy.load\<close>) on a file that does not hold what it reads, \<open>ExportError\<close> for the error
  of the output library on an item whose extension (the string) it does not write.
\<close>

text \<open>
  What \<open>json.load\<close> returns: \<open>None\<close>, booleans, unbounded integers, floats, strings, lists
  and dictionaries. A float is kept as its IEEE-754 binary64 bit pattern. A dictionary is an
  association list in insertion order; \<open>AList.update\<close> is Python's \<open>d[k] = v\<close> (an existing
  key keeps its place, a new key goes to the end).
\<close>

datatype pyval =
    PNone
  | PBool bool
  | PInt int
  | PFloat "64 word"
  | PStr string
  | PList "pyval list"
  | PDict "(string \<times> pyval) list"

type_synonym settings = "(string \<times> pyval) list"

text \<open>A pandas data frame: its index and its columns, in order, each with its cells.\<close>

record frame =
  index :: "pyval list"
  columns :: "(string \<times> pyval list) list"

text \<open>A numpy array (shape and flat contents) and an \<open>.npz\<close> archive of named arrays.\<close>

datatype ndarray = NDArray "nat list" "pyval list"

type_synonym npz = "(string \<times> ndarray) list"

section \<open>The file system\<close>

text \<open>
  A file holds the data its reader would parse from it. A directory lists its entries in the
  order the operating system yields them. Paths are lists of components below the project's
  base directory.
\<close>

datatype content = CsvData frame | JsonData pyval | NpzData npz | RawData string

datatype node = File content | Dir "(string \<times> node) list"

type_synonym path = "string list"

fun lookup :: "node \<Rightarrow> path \<Rightarrow> node option" where
  "lookup n [] = Some n"
| "lookup n (c # cs) =
     (case n of
        File _ \<Rightarrow> None
      | Dir es \<Rightarrow> (case map_of es c of None \<Rightarrow> None | Some m \<Rightarrow> lookup m cs))"

fun node_is_dir :: "node \<Rightarrow> bool" where
  "node_is_dir (Dir _) = True"
| "node_is_dir (File _) = False"

definition is_dir :: "node \<Rightarrow> path \<Rightarrow> bool" where
  "is_dir fs p = (case lookup fs p of Some n \<Rightarrow> node_is_dir n | None \<Rightarrow> False)"

definition iterdir :: "node \<Rightarrow> path \<Rightarrow> (string \<times> node) list" where
  "iterdir fs p = (case lookup fs p of Some (Dir es) \<Rightarrow> es | _ \<Rightarrow> [])"

text \<open>
  \<open>alter p f fs\<close> rewrites the entry at the non-empty path \<open>p\<close>: \<open>f\<close> sees the node there
  (\<open>None\<close> when the name is free) and answers with the node to store (\<open>None\<close> to unlink it).
  A missing ancestor is \<open>FileNotFoundError\<close>, an ancestor that is a file
  \<open>NotADirectoryError\<close>.
\<close>

fun alter :: "path \<Rightarrow> (node option \<Rightarrow> error + node option) \<Rightarrow> node \<Rightarrow> error + node" where
  "alter [] f n =
     (case f (Some n) of
        Inl e \<Rightarrow> Inl e
      | Inr None \<Rightarrow> Inl PermissionError
      | Inr (Some n') \<Rightarrow> Inr n')"
| "alter (c # cs) f (File _) = Inl NotADirectoryError"
| "alter [c] f (Dir es) =
     (case f (map_of es c) of
        Inl e \<Rightarrow> Inl e
      | Inr None \<Rightarrow> Inr (Dir (AList.delete c es))
      | Inr (Some n') \<Rightarrow> Inr (Dir (AList.update c n' es)))"
| "alter (c # d # cs) f (Dir es) =
     (case map_of es c of
        None \<Rightarrow> Inl FileNotFoundError
      | Some m \<Rightarrow>
          (case alter (d # cs) f m of
             Inl e \<Rightarrow> Inl e
           | Inr m' \<Rightarrow> Inr (Dir (AList.update c m' es))))"

text \<open>\<open>shutil.rmtree(p)\<close>: \<open>p\<close> must be an existing directory; it goes with all it holds.\<close>

definition rmtree :: "path \<Rightarrow> node \<Rightarrow> error + node" where
  "rmtree p fs =
     alter p (\<lambda>x. case x of
                     None \<Rightarrow> Inl FileNotFoundError
                   | Some (File _) \<Rightarrow> Inl NotADirectoryError
                   | Some (Dir _) \<Rightarrow> Inr None) fs"

text \<open>\<open>open(p, "w")\<close> followed by a dump: creates or replaces the file \<open>p\<close>.\<close>

definition write_file :: "path \<Rightarrow> content \<Rightarrow> node \<Rightarrow> error + node" where
  "write_file p c fs =
     alter p (\<lambda>x. case x of
                     Some (Dir _) \<Rightarrow> Inl IsADirectoryError
                   | _ \<Rightarrow> Inr (Some (File c))) fs"

text \<open>
  \<open>p.mkdir(parents=True, exist_ok=True)\<close>: every missing directory on the way is created;
  an existing directory is accepted; a file in the way is an error.
\<close>

fun mkdir :: "path \<Rightarrow> node \<Rightarrow> error + node" where
  "mkdir [] (Dir es) = Inr (Dir es)"
| "mkdir [] (File _) = Inl FileExistsError"
| "mkdir (c # cs) (File _) = Inl NotADirectoryError"
| "mkdir (c # cs) (Dir es) =
     (case mkdir cs (case map_of es c of None \<Rightarrow> Dir [] | Some m \<Rightarrow> m) of
        Inl e \<Rightarrow> Inl e
      | Inr m' \<Rightarrow> Inr (Dir (AList.update c m' es)))"

fun node_is_file :: "node \<Rightarrow> bool" where
  "node_is_file (File _) = True"
| "node_is_file (Dir _) = False"

text \<open>
  Opening a file for reading. A path that leads through a file is \<open>NotADirectoryError\<close>,
  any other path that leads nowhere \<open>FileNotFoundError\<close>.
\<close>

definition read_file :: "node \<Rightarrow> path \<Rightarrow> error + content" where
  "read_file fs p =
     (case lookup fs p of
        None \<Rightarrow>
          if list_ex (\<lambda>q. case lookup fs q of Some n \<Rightarrow> node_is_file n | None \<Rightarrow> False)
               (prefixes p)
          then Inl NotADirectoryError else Inl FileNotFoundError
      | Some (Dir _) \<Rightarrow> Inl IsADirectoryError
      | Some (File c) \<Rightarrow> Inr c)"

text \<open>
  \<open>os.walk(top)\<close>, top-down: a directory yields its path below \<open>top\<close>, the names of its
  sub-directories and the names of its files, then its sub-directories are walked in order.
  A \<open>top\<close> that is no directory yields nothing.
\<close>

fun walk_node :: "path \<Rightarrow> node \<Rightarrow> (path \<times> string list \<times> string list) list" where
  "walk_node base (File _) = []"
| "walk_node base (Dir es) =
     (base, map fst (filter (\<lambda>e. node_is_dir (snd e)) es),
            map fst (filter (\<lambda>e. \<not> node_is_dir (snd e)) es))
     # concat (map (\<lambda>e. walk_node (base @ [fst e]) (snd e)) es)"

definition walk :: "node \<Rightarrow> path \<Rightarrow> (path \<times> string list \<times> string list) list" where
  "walk fs root = (case lookup fs root of Some n \<Rightarrow> walk_node [] n | None \<Rightarrow> [])"

text \<open>
  Computations on the file system: the result, or the exception raised, together with the
  file system as it is left behind.
\<close>

type_synonym 'a io = "node \<Rightarrow> (error + 'a) \<times> node"

definition return_io :: "'a \<Rightarrow> 'a io" where
  "return_io x fs = (Inr x, fs)"

definition bind_io :: "'a io \<Rightarrow> ('a \<Rightarrow> 'b io) \<Rightarrow> 'b io" where
  "bind_io m k fs = (case m fs of (Inl e, fs') \<Rightarrow> (Inl e, fs') | (Inr x, fs') \<Rightarrow> k x fs')"

definition pure_io :: "(node \<Rightarrow> error + 'a) \<Rightarrow> 'a io" where
  "pure_io f fs = (f fs, fs)"

definition effect_io :: "(node \<Rightarrow> error + node) \<Rightarrow> unit io" where
  "effect_io f fs = (case f fs of Inl e \<Rightarrow> (Inl e, fs) | Inr fs' \<Rightarrow> (Inr (), fs'))"

fun for_each :: "('a \<Rightarrow> unit io) \<Rightarrow> 'a list \<Rightarrow> unit io" where
  "for_each body [] = return_io ()"
| "for_each body (x # xs) = bind_io (body x) (\<lambda>_. for_each body xs)"

section \<open>Python built-ins used by the harness\<close>

text \<open>A string between single quotes, as error messages show it.\<close>

definition quoted :: "string \<Rightarrow> string" where
  "quoted s = [CHR 0x27] @ s @ [CHR 0x27]"

text \<open>
  Strings are sequences of code points below 256. \<open>repr\<close> of a string: between single
  quotes, or between double quotes when the string holds a single quote and no double
  quote; the quote in use and the backslash are escaped, as are the characters that are
  not printable.
\<close>

definition py_isprintable :: "char \<Rightarrow> bool" where
  "py_isprintable c =
     (let n = (of_char c :: nat) in (32 \<le> n \<and> n < 127) \<or> (161 \<le> n \<and> n \<noteq> 173))"

definition hex_digit :: "nat \<Rightarrow> char" where
  "hex_digit n = (if n < 10 then char_of (48 + n) else char_of (87 + n))"

definition py_escape :: "char \<Rightarrow> char \<Rightarrow> string" where
  "py_escape q c =
     (if c = q \<or> c = CHR 0x5C then [CHR 0x5C, c]
      else if c = CHR 0x09 then [CHR 0x5C, CHR ''t'']
      else if c = CHR 0x0A then [CHR 0x5C, CHR ''n'']
      else if c = CHR 0x0D then [CHR 0x5C, CHR ''r'']
      else if py_isprintable c then [c]
      else [CHR 0x5C, CHR ''x'', hex_digit (of_char c div 16), hex_digit (of_char c mod 16)])"

definition py_repr :: "string \<Rightarrow> string" where
  "py_repr s =
     (let q = (if CHR 0x27 \<in> set s \<and> CHR 0x22 \<notin> set s then CHR 0x22 else CHR 0x27)
      in [q] @ concat (map (py_escape q) s) @ [q])"

text \<open>The white space that \<open>int\<close> strips: the ASCII one, next line and no-break space.\<close>

definition py_isspace :: "char \<Rightarrow> bool" where
  "py_isspace c =
     (c \<in> set [CHR 0x09, CHR 0x0A, CHR 0x0B, CHR 0x0C, CHR 0x0D, CHR '' '', CHR 0x85, CHR 0xA0])"

definition py_isdigit :: "char \<Rightarrow> bool" where
  "py_isdigit c = (c \<in> set ''0123456789'')"

definition digit_value :: "char \<Rightarrow> int" where
  "digit_value c = int (of_char c) - 48"

text \<open>
  The digits of an integer literal: one or more decimal digits, single underscores allowed
  between two digits. The flag says whether the previous character was a digit.
\<close>

fun parse_digits :: "bool \<Rightarrow> int \<Rightarrow> string \<Rightarrow> int option" where
  "parse_digits prev acc [] = (if prev then Some acc else None)"
| "parse_digits prev acc (c # cs) =
     (if py_isdigit c then parse_digits True (acc * 10 + digit_value c) cs
      else if c = CHR ''_'' \<and> prev then parse_digits False acc cs
      else None)"

definition py_strip :: "string \<Rightarrow> string" where
  "py_strip s = rev (dropWhile py_isspace (rev (dropWhile py_isspace s)))"

text \<open>\<open>int(s)\<close>: surrounding white space, an optional sign, the digits.\<close>

definition py_int :: "string \<Rightarrow> error + int" where
  "py_int s =
     (let t = py_strip s;
          r = (case t of
                 c # cs \<Rightarrow>
                   if c = CHR ''+'' then parse_digits False 0 cs
                   else if c = CHR ''-'' then map_option uminus (parse_digits False 0 cs)
                   else parse_digits False 0 t
               | [] \<Rightarrow> None)
      in case r of
           None \<Rightarrow> Inl (ValueError (''invalid literal for int() with base 10: '' @ py_repr s))
         | Some n \<Rightarrow> Inr n)"

fun str_nat :: "nat \<Rightarrow> string" where
  "str_nat n =
     (if n < 10 then [char_of (48 + n)]
      else str_nat (n div 10) @ [char_of (48 + n mod 10)])"

declare str_nat.simps [simp del]

text \<open>The format specification \<open>02d\<close>: at least two characters, padded with zeros.\<close>

definition format_02d :: "int \<Rightarrow> string" where
  "format_02d n =
     (if n < 0 then CHR ''-'' # str_nat (nat (- n))
      else let d = str_nat (nat n) in replicate (2 - length d) CHR ''0'' @ d)"

text \<open>\<open>str\<close> of an integer.\<close>

definition str_int :: "int \<Rightarrow> string" where
  "str_int n = (if n < 0 then CHR ''-'' # str_nat (nat (- n)) else str_nat (nat n))"

text \<open>\<open>sep.join(parts)\<close>.\<close>

fun py_join :: "string \<Rightarrow> string list \<Rightarrow> string" where
  "py_join sep [] = []"
| "py_join sep [x] = x"
| "py_join sep (x # y # ys) = x @ sep @ py_join sep (y # ys)"

text \<open>\<open>max\<close> of a list of integers; the empty list raises.\<close>

fun py_max :: "int list \<Rightarrow> error + int" where
  "py_max [] = Inl (ValueError ''max() arg is an empty sequence'')"
| "py_max (x # xs) = Inr (fold max xs x)"

text \<open>\<open>pathlib\<close>'s \<open>suffix\<close> of a file name: from the last dot on, unless that dot is the
  first or the last character.\<close>

definition path_suffix :: "string \<Rightarrow> string" where
  "path_suffix name =
     (let r = takeWhile (\<lambda>c. c \<noteq> CHR ''.'') (rev name)
      in if CHR ''.'' \<in> set name \<and> r \<noteq> [] \<and> Suc (length r) < length name
         then CHR ''.'' # rev r else [])"

definition path_name :: "path \<Rightarrow> string" where
  "path_name p = (if p = [] then [] else last p)"

fun as_int :: "pyval \<Rightarrow> int option" where
  "as_int (PInt i) = Some i"
| "as_int (PBool b) = Some (if b then 1 else 0)"
| "as_int _ = None"

fun is_float :: "pyval \<Rightarrow> bool" where
  "is_float (PFloat _) = True"
| "is_float _ = False"

definition is_number :: "pyval \<Rightarrow> bool" where
  "is_number v = (is_float v \<or> as_int v \<noteq> None)"

fun py_truthy :: "pyval \<Rightarrow> bool" where
  "py_truthy PNone = False"
| "py_truthy (PBool b) = b"
| "py_truthy (PInt i) = (i \<noteq> 0)"
| "py_truthy (PFloat w) = (take_bit 63 w \<noteq> 0)"
| "py_truthy (PStr s) = (s \<noteq> [])"
| "py_truthy (PList xs) = (xs \<noteq> [])"
| "py_truthy (PDict d) = (d \<noteq> [])"

fun py_getitem :: "pyval \<Rightarrow> string \<Rightarrow> error + pyval" where
  "py_getitem (PDict d) k = (case map_of d k of None \<Rightarrow> Inl (KeyError k) | Some v \<Rightarrow> Inr v)"
| "py_getitem _ k = Inl TypeError"

fun py_setitem :: "pyval \<Rightarrow> string \<Rightarrow> pyval \<Rightarrow> error + pyval" where
  "py_setitem (PDict d) k v = Inr (PDict (AList.update k v d))"
| "py_setitem _ k v = Inl TypeError"

text \<open>
  What the harness takes from outside the repository and the model does not compute:
  floating-point arithmetic and comparison of the interpreter, the tolerance comparisons
  of pandas and numpy (applied to the absolute and the relative tolerance, then to the
  actual and the expected data; \<open>True\<close> when the library raises nothing), the text
  pandas writes into a csv field for a value that is no integer, boolean or \<open>None\<close>, the
  process's working directory and the folder the output library exports to by default.
\<close>

record ext =
  float_sub :: "pyval \<Rightarrow> pyval \<Rightarrow> error + pyval"
  float_eq :: "pyval \<Rightarrow> pyval \<Rightarrow> bool"
  assert_frame_equal :: "pyval \<Rightarrow> pyval \<Rightarrow> frame \<Rightarrow> frame \<Rightarrow> bool"
  assert_allclose :: "pyval \<Rightarrow> pyval \<Rightarrow> ndarray \<Rightarrow> ndarray \<Rightarrow> bool"
  csv_other :: "pyval \<Rightarrow> string"
  cwd :: path
  default_folder :: path

text \<open>Python's \<open>a - b\<close> on values read from JSON.\<close>

definition py_sub :: "ext \<Rightarrow> pyval \<Rightarrow> pyval \<Rightarrow> error + pyval" where
  "py_sub X a b =
     (case (as_int a, as_int b) of
        (Some x, Some y) \<Rightarrow> Inr (PInt (x - y))
      | _ \<Rightarrow> if is_number a \<and> is_number b then float_sub X a b else Inl TypeError)"

text \<open>Python's \<open>a == b\<close> on values read from JSON (dictionaries compare without order).\<close>

fun py_eq :: "ext \<Rightarrow> pyval \<Rightarrow> pyval \<Rightarrow> bool" where
  "py_eq X PNone b = (b = PNone)"
| "py_eq X (PStr s) b = (b = PStr s)"
| "py_eq X (PList xs) b = (case b of PList ys \<Rightarrow> list_all2 (py_eq X) xs ys | _ \<Rightarrow> False)"
| "py_eq X (PDict d) b =
     (case b of
        PDict d' \<Rightarrow>
          length d = length d' \<and>
          list_all (\<lambda>kv. case map_of d' (fst kv) of
                            None \<Rightarrow> False
                          | Some w \<Rightarrow> py_eq X (snd kv) w) d
      | _ \<Rightarrow> False)"
| "py_eq X a b =
     (case (as_int a, as_int b) of
        (Some x, Some y) \<Rightarrow> x = y
      | _ \<Rightarrow> is_number a \<and> is_number b \<and> float_eq X a b)"

section \<open>The output library and the model (src/main.py)\<close>

record output_item =
  item_data :: content
  item_filename :: string
  item_extension :: string

record output_set =
  output_items :: "output_item list"

definition OutputSet :: output_set where
  "OutputSet = \<lparr>output_items = []\<rparr>"

definition add_item :: "content \<Rightarrow> string \<Rightarrow> string \<Rightarrow> output_set \<Rightarrow> output_set" where
  "add_item d f e s =
     s\<lparr>output_items := output_items s @ [\<lparr>item_data = d, item_filename = f, item_extension = e\<rparr>]\<rparr>"

text \<open>
  Modelled from the spec: the output library (\<open>detquantlib\<close>) is not in the repository.
  \<open>item.export_to_file(folder_dir)\<close> creates the folder when it is missing, parents
  included, then writes the item into it, to a file named after the item with the item's
  extension; an extension other than csv, json, html and npz is refused.
\<close>

definition export_to_file :: "path \<Rightarrow> output_item \<Rightarrow> unit io" where
  "export_to_file folder_dir item =
     bind_io (effect_io (mkdir folder_dir)) (\<lambda>_.
     if item_extension item \<in> set [''csv'', ''json'', ''html'', ''npz'']
     then effect_io (write_file (folder_dir @ [item_filename item @ ''.'' @ item_extension item])
                       (item_data item))
     else pure_io (\<lambda>_. Inl (ExportError (item_extension item))))"

definition nan :: pyval where
  "nan = PFloat 0x7FF8000000000000"

definition DataFrame :: "pyval list \<Rightarrow> string list \<Rightarrow> frame" where
  "DataFrame idx cols =
     \<lparr>index = idx, columns = map (\<lambda>c. (c, replicate (length idx) nan)) cols\<rparr>"

text \<open>\<open>df[name] = v\<close> for a scalar \<open>v\<close>: the column holds \<open>v\<close> in every row.\<close>

definition set_column :: "string \<Rightarrow> pyval \<Rightarrow> frame \<Rightarrow> frame" where
  "set_column name v df =
     df\<lparr>columns := AList.update name (replicate (length (index df)) v) (columns df)\<rparr>"

text \<open>
  The text of a csv file, as \<open>df.to_csv\<close> writes the frame it holds: a header line with an
  empty field for the index and the names of the columns, then one line for each entry of
  the index, with the entry and the cell of each column.
\<close>

definition csv_field :: "ext \<Rightarrow> pyval \<Rightarrow> string" where
  "csv_field X v =
     (case v of
        PInt i \<Rightarrow> str_int i
      | PBool b \<Rightarrow> (if b then ''True'' else ''False'')
      | PNone \<Rightarrow> []
      | _ \<Rightarrow> csv_other X v)"

definition csv_cell :: "ext \<Rightarrow> nat \<Rightarrow> pyval list \<Rightarrow> string" where
  "csv_cell X k cells = (case drop k cells of c # _ \<Rightarrow> csv_field X c | [] \<Rightarrow> [])"

definition csv_lines :: "ext \<Rightarrow> frame \<Rightarrow> string list" where
  "csv_lines X df =
     py_join '','' ([] # map fst (columns df))
     # map (\<lambda>(k, i). py_join '','' (csv_field X i # map (\<lambda>c. csv_cell X k (snd c)) (columns df)))
         (enumerate 0 (index df))"

definition json_load :: "path \<Rightarrow> node \<Rightarrow> error + pyval" where
  "json_load p fs =
     (case read_file fs p of
        Inl e \<Rightarrow> Inl e
      | Inr (JsonData v) \<Rightarrow> Inr v
      | Inr _ \<Rightarrow> Inl ParserError)"

definition main :: "ext \<Rightarrow> pyval option \<Rightarrow> output_set io" where
  "main X settings_arg =
     bind_io (case settings_arg of
                Some d \<Rightarrow> return_io d
              | None \<Rightarrow> pure_io (json_load (cwd X @ [''Inputs'', ''settings.json'']))) (\<lambda>settings_dict.
     bind_io (pure_io (\<lambda>_. py_getitem settings_dict ''a'')) (\<lambda>a.
     bind_io (pure_io (\<lambda>_. py_getitem settings_dict ''b'')) (\<lambda>b.
     bind_io (pure_io (\<lambda>_. py_sub X a b)) (\<lambda>total.
     let df = set_column ''total'' total (DataFrame [PInt 0] [''total'']);
         output_set = add_item (CsvData df) ''df'' ''csv'' OutputSet
     in
     bind_io (pure_io (\<lambda>_. py_getitem settings_dict ''create_output_files'')) (\<lambda>flag.
     bind_io (if py_truthy flag
              then for_each (export_to_file (default_folder X)) (output_items output_set)
              else return_io ()) (\<lambda>_.
     return_io output_set))))))"

section \<open>The snapshot harness (tests/test_snapshots.py)\<close>

definition SNAPSHOTS_DIR :: path where
  "SNAPSHOTS_DIR = [''tests'', ''snapshots'']"

definition PROJECT_BASE_DIR :: path where
  "PROJECT_BASE_DIR = []"

definition EXPECTED_OUTPUTS_FOLDER :: string where
  "EXPECTED_OUTPUTS_FOLDER = ''ExpectedOutputs''"

definition OUTPUTS_FOLDER_NAME :: string where
  "OUTPUTS_FOLDER_NAME = ''TempOutputs''"

definition INPUTS_FOLDER_NAME :: string where
  "INPUTS_FOLDER_NAME = ''Inputs''"

definition SETTINGS_FILENAME :: string where
  "SETTINGS_FILENAME = ''settings.json''"

text \<open>The float \<open>1e-8\<close>, as its bit pattern, and the integer \<open>0\<close>.\<close>

definition ABSOLUTE_TOLERANCE :: pyval where
  "ABSOLUTE_TOLERANCE = PFloat 0x3E45798EE2308C3A"

definition RELATIVE_TOLERANCE :: pyval where
  "RELATIVE_TOLERANCE = PInt 0"

definition find_cases :: "node \<Rightarrow> path list" where
  "find_cases fs =
     (if is_dir fs SNAPSHOTS_DIR
      then map (\<lambda>f. SNAPSHOTS_DIR @ [fst f])
             (filter (\<lambda>f. node_is_dir (snd f) \<and> prefix ''Case'' (fst f))
                (iterdir fs SNAPSHOTS_DIR))
      else [])"

text \<open>The list comprehension \<open>[int(c.name[4:]) for c in cases]\<close>; the first bad name raises.\<close>

fun case_numbers_of :: "path list \<Rightarrow> error + int list" where
  "case_numbers_of [] = Inr []"
| "case_numbers_of (c # cs) =
     (case py_int (drop 4 (path_name c)) of
        Inl e \<Rightarrow> Inl e
      | Inr n \<Rightarrow> (case case_numbers_of cs of Inl e \<Rightarrow> Inl e | Inr ns \<Rightarrow> Inr (n # ns)))"

text \<open>The loop \<open>for i in range(1, m): if i not in case_numbers: new_case_number = i\<close>.\<close>

fun scan_range :: "int list \<Rightarrow> int list \<Rightarrow> int option \<Rightarrow> int option" where
  "scan_range [] case_numbers new_case_number = new_case_number"
| "scan_range (i # rest) case_numbers new_case_number =
     scan_range rest case_numbers
       (if i \<notin> set case_numbers then Some i else new_case_number)"

definition new_case_number_of :: "int list \<Rightarrow> error + int" where
  "new_case_number_of case_numbers =
     (case py_max case_numbers of
        Inl e \<Rightarrow> Inl e
      | Inr m \<Rightarrow>
          (case scan_range [1 .. m - 1] case_numbers None of
             Some i \<Rightarrow> Inr i
           | None \<Rightarrow> Inr (m + 1)))"

definition create_new_case_folder :: "path io" where
  "create_new_case_folder =
     bind_io (pure_io (\<lambda>fs. case_numbers_of (find_cases fs))) (\<lambda>case_numbers.
     bind_io (pure_io (\<lambda>_. new_case_number_of case_numbers)) (\<lambda>new_case_number.
     let new_case = ''Case'' @ format_02d new_case_number;
         new_case_dir = SNAPSHOTS_DIR @ [new_case]
     in bind_io (effect_io (mkdir new_case_dir)) (\<lambda>_. return_io new_case_dir)))"

definition load_settings :: "path \<Rightarrow> node \<Rightarrow> error + pyval" where
  "load_settings base_dir fs =
     (case json_load (base_dir @ [INPUTS_FOLDER_NAME, SETTINGS_FILENAME]) fs of
        Inl e \<Rightarrow> Inl e
      | Inr settings \<Rightarrow> py_setitem settings ''create_output_files'' (PBool False))"

definition export_settings :: "path \<Rightarrow> pyval \<Rightarrow> unit io" where
  "export_settings case_dir settings =
     (let inputs_dir = case_dir @ [INPUTS_FOLDER_NAME] in
      bind_io (\<lambda>fs. if is_dir fs inputs_dir then effect_io (rmtree inputs_dir) fs
                    else return_io () fs) (\<lambda>_.
      bind_io (effect_io (mkdir inputs_dir)) (\<lambda>_.
      effect_io (write_file (inputs_dir @ [SETTINGS_FILENAME]) (JsonData settings)))))"

definition export_outputs :: "path \<Rightarrow> output_set \<Rightarrow> unit io" where
  "export_outputs outputs_dir output_set =
     bind_io (\<lambda>fs. if is_dir fs outputs_dir then effect_io (rmtree outputs_dir) fs
                   else return_io () fs) (\<lambda>_.
     bind_io (effect_io (mkdir outputs_dir)) (\<lambda>_.
     for_each (\<lambda>item. if item_extension item \<noteq> ''html''
                       then export_to_file outputs_dir item
                       else return_io ())
       (output_items output_set)))"

definition read_csv :: "node \<Rightarrow> path \<Rightarrow> error + frame" where
  "read_csv fs p =
     (case read_file fs p of
        Inl e \<Rightarrow> Inl e
      | Inr (CsvData df) \<Rightarrow> Inr df
      | Inr _ \<Rightarrow> Inl ParserError)"

definition np_load :: "node \<Rightarrow> path \<Rightarrow> error + npz" where
  "np_load fs p =
     (case read_file fs p of
        Inl e \<Rightarrow> Inl e
      | Inr (NpzData z) \<Rightarrow> Inr z
      | Inr _ \<Rightarrow> Inl ParserError)"

definition npz_files :: "npz \<Rightarrow> string list" where
  "npz_files z = map fst z"

definition npz_getitem :: "npz \<Rightarrow> string \<Rightarrow> error + ndarray" where
  "npz_getitem z name =
     (case map_of z name of
        None \<Rightarrow> Inl (KeyError (name @ '' is not a file in the archive''))
      | Some a \<Rightarrow> Inr a)"

definition assert_csv :: "ext \<Rightarrow> path \<Rightarrow> path \<Rightarrow> node \<Rightarrow> error + unit" where
  "assert_csv X output_file_dir expected_output_file_dir fs =
     (case read_csv fs output_file_dir of
        Inl e \<Rightarrow> Inl e
      | Inr data \<Rightarrow>
          (case read_csv fs expected_output_file_dir of
             Inl e \<Rightarrow> Inl e
           | Inr expected_data \<Rightarrow>
               if assert_frame_equal X ABSOLUTE_TOLERANCE RELATIVE_TOLERANCE data expected_data
               then Inr () else Inl AssertionError))"

definition assert_json :: "ext \<Rightarrow> path \<Rightarrow> path \<Rightarrow> node \<Rightarrow> error + unit" where
  "assert_json X output_file_dir expected_output_file_dir fs =
     (case json_load output_file_dir fs of
        Inl e \<Rightarrow> Inl e
      | Inr data \<Rightarrow>
          (case json_load expected_output_file_dir fs of
             Inl e \<Rightarrow> Inl e
           | Inr expected_data \<Rightarrow>
               if py_eq X data expected_data then Inr () else Inl AssertionError))"

text \<open>The loop over the members of the expected archive; the first failure raises.\<close>

fun compare_members :: "ext \<Rightarrow> npz \<Rightarrow> npz \<Rightarrow> string list \<Rightarrow> error + unit" where
  "compare_members X data expected_data [] = Inr ()"
| "compare_members X data expected_data (name # names) =
     (case npz_getitem data name of
        Inl e \<Rightarrow> Inl e
      | Inr a \<Rightarrow>
          (case npz_getitem expected_data name of
             Inl e \<Rightarrow> Inl e
           | Inr b \<Rightarrow>
               if assert_allclose X ABSOLUTE_TOLERANCE RELATIVE_TOLERANCE a b
               then compare_members X data expected_data names
               else Inl AssertionError))"

definition assert_npz :: "ext \<Rightarrow> path \<Rightarrow> path \<Rightarrow> node \<Rightarrow> error + unit" where
  "assert_npz X output_file_dir expected_output_file_dir fs =
     (case np_load fs output_file_dir of
        Inl e \<Rightarrow> Inl e
      | Inr data \<Rightarrow>
          (case np_load fs expected_output_file_dir of
             Inl e \<Rightarrow> Inl e
           | Inr expected_data \<Rightarrow>
               if set (npz_files data) \<noteq> set (npz_files expected_data)
               then Inl (KeyError ''The .npz archives have different keys.'')
               else compare_members X data expected_data (npz_files expected_data)))"

definition assert_file :: "ext \<Rightarrow> path \<Rightarrow> path \<Rightarrow> node \<Rightarrow> error + unit" where
  "assert_file X output_file_dir expected_output_file_dir fs =
     (let extension = path_suffix (path_name expected_output_file_dir) in
      if extension = ''.csv'' then assert_csv X output_file_dir expected_output_file_dir fs
      else if extension = ''.json'' then assert_json X output_file_dir expected_output_file_dir fs
      else if extension = ''.html'' then Inr ()
      else if extension = ''.npz'' then assert_npz X output_file_dir expected_output_file_dir fs
      else Inl (ValueError (''File extension '' @ quoted extension @ '' is not supported.'')))"

text \<open>The files that \<open>os.walk\<close> yields, as paths below the walked directory, in order.\<close>

definition walked_files :: "node \<Rightarrow> path \<Rightarrow> path list" where
  "walked_files fs base =
     concat (map (\<lambda>(base_dir, folder_names, filenames). map (\<lambda>f. base_dir @ [f]) filenames)
               (walk fs base))"

fun assert_files :: "ext \<Rightarrow> path \<Rightarrow> path \<Rightarrow> node \<Rightarrow> path list \<Rightarrow> error + unit" where
  "assert_files X expected_outputs_base_dir outputs_base_dir fs [] = Inr ()"
| "assert_files X expected_outputs_base_dir outputs_base_dir fs (dir_suffix # rest) =
     (case assert_file X (outputs_base_dir @ dir_suffix)
             (expected_outputs_base_dir @ dir_suffix) fs of
        Inl e \<Rightarrow> Inl e
      | Inr _ \<Rightarrow> assert_files X expected_outputs_base_dir outputs_base_dir fs rest)"

definition compare_outputs :: "ext \<Rightarrow> path \<Rightarrow> path \<Rightarrow> node \<Rightarrow> error + unit" where
  "compare_outputs X expected_outputs_base_dir outputs_base_dir fs =
     assert_files X expected_outputs_base_dir outputs_base_dir fs
       (walked_files fs expected_outputs_base_dir)"

text \<open>The body of the loop over the cases in \<open>test_snapshots\<close>.\<close>

definition run_case :: "ext \<Rightarrow> string \<Rightarrow> path \<Rightarrow> unit io" where
  "run_case X run_type case_dir =
     (let inputs_base_dir = (if run_type = ''create'' then PROJECT_BASE_DIR else case_dir) in
      bind_io (pure_io (load_settings inputs_base_dir)) (\<lambda>settings.
      bind_io (main X (Some settings)) (\<lambda>output_set.
      let expected_outputs_base_dir = case_dir @ [EXPECTED_OUTPUTS_FOLDER];
          outputs_base_dir = case_dir @ [OUTPUTS_FOLDER_NAME]
      in
      bind_io (if run_type = ''create''
               then bind_io (export_settings case_dir settings) (\<lambda>_.
                      export_outputs expected_outputs_base_dir output_set)
               else return_io ()) (\<lambda>_.
      if run_type = ''update'' then export_outputs expected_outputs_base_dir output_set
      else if run_type = ''compare'' then
        bind_io (export_outputs outputs_base_dir output_set) (\<lambda>_.
        bind_io (pure_io (compare_outputs X expected_outputs_base_dir outputs_base_dir)) (\<lambda>_.
        effect_io (rmtree outputs_base_dir)))
      else return_io ()))))"

definition test_snapshots :: "ext \<Rightarrow> string \<Rightarrow> unit io" where
  "test_snapshots X run_type =
     (if run_type \<notin> set [''compare'', ''update'', ''create'']
      then pure_io (\<lambda>_. Inl (ValueError
             (''Invalid input '' @ quoted ''run_type'' @ ''='' @ quoted run_type
                @ ''. Accepted values: '' @ quoted ''compare'' @ '', '' @ quoted ''update''
                @ '', '' @ quoted ''create'' @ ''.'')))
      else
        bind_io (if run_type = ''create''
                 then bind_io create_new_case_folder (\<lambda>c. return_io [c])
                 else pure_io (\<lambda>fs. Inr (find_cases fs))) (\<lambda>cases.
        for_each (run_case X run_type) cases))"

section \<open>Sample inputs\<close>

text \<open>
  An instance of the external part, for running the harness on concrete inputs: the
  tolerance comparisons accept identical data and nothing else. The runs below use
  integers only, so the float operations are never reached.
\<close>

definition exact_ext :: ext where
  "exact_ext =
     \<lparr>float_sub = (\<lambda>a b. Inl TypeError), float_eq = (\<lambda>a b. False),
      assert_frame_equal = (\<lambda>atol rtol a b. a = b),
      assert_allclose = (\<lambda>atol rtol a b. a = b),
      csv_other = (\<lambda>v. []),
      cwd = [], default_folder = [''Outputs'']\<rparr>"

definition project :: "pyval \<Rightarrow> (string \<times> node) list \<Rightarrow> node" where
  "project s cases =
     Dir [(''Inputs'', Dir [(''settings.json'', File (JsonData s))]),
          (''tests'', Dir [(''snapshots'', Dir cases)])]"

definition fs_124 :: node where
  "fs_124 = project PNone [(''Case01'', Dir []), (''Case02'', Dir []), (''Case04'', Dir [])]"

definition fs_123 :: node where
  "fs_123 = project PNone [(''Case01'', Dir []), (''Case02'', Dir []), (''Case03'', Dir [])]"

definition fs_14 :: node where
  "fs_14 = project PNone [(''Case01'', Dir []), (''Case04'', Dir [])]"

definition fs_negative :: node where
  "fs_negative = project PNone [(''Case-5'', Dir [])]"

definition fs_unparsable :: node where
  "fs_unparsable = project PNone [(''Case01'', Dir []), (''Case_old'', Dir [])]"

definition fs_no_cases :: node where
  "fs_no_cases = project PNone [(''NotACase'', Dir [])]"

definition fs_discovery :: node where
  "fs_discovery =
     project PNone [(''Case01'', Dir []), (''Case03'', Dir []), (''NotACase'', Dir []),
                    (''Case02.txt'', File (RawData []))]"

definition settings_10_3 :: pyval where
  "settings_10_3 = PDict [(''a'', PInt 10), (''b'', PInt 3)]"

definition settings_10_3_off :: pyval where
  "settings_10_3_off =
     PDict [(''a'', PInt 10), (''b'', PInt 3), (''create_output_files'', PBool False)]"

definition total_frame :: "int \<Rightarrow> frame" where
  "total_frame t = \<lparr>index = [PInt 0], columns = [(''total'', [PInt t])]\<rparr>"

definition total_output :: "int \<Rightarrow> output_set" where
  "total_output t =
     \<lparr>output_items =
        [\<lparr>item_data = CsvData (total_frame t), item_filename = ''df'', item_extension = ''csv''\<rparr>]\<rparr>"

definition arr :: "int list \<Rightarrow> ndarray" where
  "arr xs = NDArray [length xs] (map PInt xs)"

definition fs_npz :: node where
  "fs_npz =
     Dir [(''exp'', Dir [(''m.npz'', File (NpzData [(''x'', arr [1, 2]), (''y'', arr [3])]))]),
          (''same'', Dir [(''m.npz'', File (NpzData [(''y'', arr [3]), (''x'', arr [1, 2])]))]),
          (''keys'', Dir [(''m.npz'', File (NpzData [(''x'', arr [1, 2])]))]),
          (''vals'', Dir [(''m.npz'', File (NpzData [(''x'', arr [1, 5]), (''y'', arr [3])]))])]"

definition settings_10_3_on :: pyval where
  "settings_10_3_on =
     PDict [(''a'', PInt 10), (''b'', PInt 3), (''create_output_files'', PBool True)]"

definition fs_create :: node where
  "fs_create = project settings_10_3_on [(''Case01'', Dir [])]"

definition case_folder :: "pyval \<Rightarrow> (string \<times> node) list \<Rightarrow> node" where
  "case_folder s expected =
     Dir [(''Inputs'', Dir [(''settings.json'', File (JsonData s))]),
          (''ExpectedOutputs'', Dir expected)]"

definition fs_unsupported :: node where
  "fs_unsupported =
     project PNone
       [(''Case01'', case_folder settings_10_3_off [(''notes.txt'', File (RawData ''seven''))])]"

definition fs_matching :: node where
  "fs_matching =
     project PNone
       [(''Case01'', case_folder settings_10_3_off [(''df.csv'', File (CsvData (total_frame 7)))])]"

definition fs_outputs :: "(string \<times> node) list \<Rightarrow> node" where
  "fs_outputs produced =
     Dir [(''ExpectedOutputs'', Dir [(''df.csv'', File (CsvData (total_frame 7)))]),
          (''TempOutputs'', Dir produced)]"

section \<open>Case allocation and discovery\<close>

lemma py_max_Max: "ns \<noteq> [] \<Longrightarrow> py_max ns = Inr (Max (set ns))"
proof (cases ns)
  case Nil
  assume "ns \<noteq> []"
  with Nil show ?thesis by simp
next
  case (Cons x xs)
  have "Max (set (x # xs)) = fold max xs x" by (rule Max.set_eq_fold)
  with Cons show ?thesis by simp
qed

lemma scan_range_filter:
  "scan_range is ns acc =
     (if filter (\<lambda>i. i \<notin> set ns) is = [] then acc
      else Some (last (filter (\<lambda>i. i \<notin> set ns) is)))"
  by (induction "is" arbitrary: acc) auto

lemma sorted_last_Max:
  fixes xs :: "int list"
  shows "sorted xs \<Longrightarrow> xs \<noteq> [] \<Longrightarrow> last xs = Max (set xs)"
proof (induction xs)
  case Nil
  then show ?case by simp
next
  case (Cons x xs)
  show ?case
  proof (cases "xs = []")
    case True
    then show ?thesis by simp
  next
    case False
    from Cons.prems have "sorted xs" and le: "\<forall>y\<in>set xs. x \<le> y" by simp_all
    with Cons.IH False have "last xs = Max (set xs)" by simp
    moreover have "x \<le> Max (set xs)"
    proof -
      from False obtain y where "y \<in> set xs" by (cases xs) auto
      with le have "x \<le> y" and "y \<le> Max (set xs)" by simp_all
      then show ?thesis by simp
    qed
    ultimately show ?thesis using False by (simp add: max_def)
  qed
qed

lemma gaps_upto:
  "set (filter (\<lambda>i. i \<notin> set ns) [1 .. m - 1]) = {i. 1 \<le> i \<and> i < m \<and> i \<notin> set ns}"
  by auto

lemma new_case_number_of_eq:
  assumes "ns \<noteq> []"
  shows "new_case_number_of ns =
     Inr (if {i. 1 \<le> i \<and> i < Max (set ns) \<and> i \<notin> set ns} = {} then Max (set ns) + 1
          else Max {i. 1 \<le> i \<and> i < Max (set ns) \<and> i \<notin> set ns})"
proof -
  let ?m = "Max (set ns)"
  let ?gs = "filter (\<lambda>i. i \<notin> set ns) [1 .. ?m - 1]"
  let ?G = "{i. 1 \<le> i \<and> i < ?m \<and> i \<notin> set ns}"
  have s: "sorted ?gs" by (rule sorted_wrt_filter) simp
  have g: "set ?gs = ?G" by (rule gaps_upto)
  have n: "new_case_number_of ns =
             (if ?gs = [] then Inr (?m + 1) else Inr (last ?gs))"
    by (simp add: new_case_number_of_def py_max_Max [OF assms] scan_range_filter)
  show ?thesis
  proof (cases "?gs = []")
    case True
    with g have e: "?G = {}" by (metis set_empty)
    have "new_case_number_of ns = Inr (?m + 1)" using n True by simp
    also have "?m + 1 = (if ?G = {} then ?m + 1 else Max ?G)"
      using e by (rule if_P [symmetric])
    finally show ?thesis .
  next
    case False
    then have ne: "?G \<noteq> {}" using g by (metis set_empty)
    have "last ?gs = Max (set ?gs)" using s False by (rule sorted_last_Max)
    then have l: "last ?gs = Max ?G" by (simp only: g)
    have "new_case_number_of ns = Inr (last ?gs)" using n False by simp
    also have "last ?gs = (if ?G = {} then ?m + 1 else Max ?G)"
      unfolding l using ne by (rule if_not_P [symmetric])
    finally show ?thesis .
  qed
qed


lemma allocated_number_facts:
  fixes ns :: "int list"
  assumes "ns \<noteq> []"
  defines "m \<equiv> Max (set ns)"
  defines "G \<equiv> {i. 1 \<le> i \<and> i < m \<and> i \<notin> set ns}"
  defines "k \<equiv> (if G = {} then m + 1 else Max G)"
  shows "k \<notin> set ns" and "0 \<le> m \<Longrightarrow> 0 < k"
    and "(0 < k \<and> (\<forall>j. 0 < j \<and> j \<notin> set ns \<longrightarrow> k \<le> j)) \<longleftrightarrow> (0 \<le> m \<and> card G \<le> 1)"
proof -
  have fin: "finite G" unfolding G_def by (rule finite_subset [of _ "{1..<m}"]) auto
  have m_in: "m \<in> set ns" unfolding m_def using assms(1) by (intro Max_in) simp_all
  have le_m: "x \<le> m" if "x \<in> set ns" for x unfolding m_def using that by simp
  have in_G: "j \<in> G" if "0 < j" "j < m" "j \<notin> set ns" for j using that unfolding G_def by simp
  have kG: "k \<in> G" if "G \<noteq> {}"
  proof -
    have "Max G \<in> G" using fin that by (rule Max_in)
    with that show ?thesis unfolding k_def by simp
  qed
  have G_pos: "1 \<le> g \<and> g < m \<and> g \<notin> set ns" if "g \<in> G" for g
    using that unfolding G_def by simp
  show notin: "k \<notin> set ns"
  proof (cases "G = {}")
    case True
    then have "k = m + 1" unfolding k_def by simp
    with le_m [of k] show ?thesis by auto
  next
    case False
    from G_pos [OF kG [OF this]] show ?thesis by simp
  qed
  show pos: "0 < k" if "0 \<le> m"
  proof (cases "G = {}")
    case True
    with that show ?thesis unfolding k_def by simp
  next
    case False
    from G_pos [OF kG [OF this]] show ?thesis by simp
  qed
  show "(0 < k \<and> (\<forall>j. 0 < j \<and> j \<notin> set ns \<longrightarrow> k \<le> j)) \<longleftrightarrow> (0 \<le> m \<and> card G \<le> 1)"
  proof
    assume l: "0 < k \<and> (\<forall>j. 0 < j \<and> j \<notin> set ns \<longrightarrow> k \<le> j)"
    have m0: "0 \<le> m"
    proof (rule ccontr)
      assume n: "\<not> 0 \<le> m"
      have "G = {}"
      proof (rule ccontr)
        assume "G \<noteq> {}"
        from G_pos [OF kG [OF this]] n show False by simp
      qed
      with n have "k \<le> 0" unfolding k_def by simp
      with l show False by simp
    qed
    have "card G \<le> 1"
    proof (cases "G = {}")
      case True
      then show ?thesis by simp
    next
      case False
      have "g = k" if "g \<in> G" for g
      proof -
        from G_pos [OF that] have "0 < g" "g \<notin> set ns" by simp_all
        with l have "k \<le> g" by blast
        moreover have "g \<le> Max G" using fin that by (rule Max_ge)
        then have "g \<le> k" using False unfolding k_def by simp
        ultimately show ?thesis by simp
      qed
      with kG [OF False] have "G = {k}" by blast
      then have "card G = 1" by simp
      then show ?thesis by simp
    qed
    with m0 show "0 \<le> m \<and> card G \<le> 1" by simp
  next
    assume r: "0 \<le> m \<and> card G \<le> 1"
    have "k \<le> j" if j: "0 < j" "j \<notin> set ns" for j
    proof (cases "j < m")
      case True
      with j have jG: "j \<in> G" by (intro in_G)
      then have ne: "G \<noteq> {}" by blast
      have "card G = 1"
      proof -
        have "card G \<noteq> 0" using fin ne by simp
        with r show ?thesis by linarith
      qed
      then obtain x where "G = {x}" by (auto simp: card_1_singleton_iff)
      with jG kG [OF ne] have "k = j" by simp
      then show ?thesis by simp
    next
      case False
      with m_in j have "m < j" by (cases "j = m") auto
      show ?thesis
      proof (cases "G = {}")
        case True
        with \<open>m < j\<close> show ?thesis unfolding k_def by simp
      next
        case False
        from G_pos [OF kG [OF this]] have "k < m" by simp
        with \<open>m < j\<close> show ?thesis by simp
      qed
    qed
    with pos r show "0 < k \<and> (\<forall>j. 0 < j \<and> j \<notin> set ns \<longrightarrow> k \<le> j)" by blast
  qed
qed

text \<open>
  C1 (amended). With at least one existing case, all of them numbered,
  \<open>create_new_case_folder\<close> allocates a number that no case has: the largest unused
  integer between 1 and the current maximum (exclusive) when there is one, since the loop
  keeps the last gap it meets, and the maximum plus one otherwise. The number is positive
  when the maximum is not negative, and it is the smallest unused positive integer exactly
  when the maximum is not negative and there is at most one gap. The folder of that number
  is then created.
\<close>

theorem create_new_case_folder_allocates:
  assumes "case_numbers_of (find_cases fs) = Inr ns" and "ns \<noteq> []"
  shows "(let m = Max (set ns);
              gaps = {i. 1 \<le> i \<and> i < m \<and> i \<notin> set ns};
              k = (if gaps = {} then m + 1 else Max gaps);
              d = SNAPSHOTS_DIR @ [''Case'' @ format_02d k]
          in create_new_case_folder fs =
               (case mkdir d fs of Inl e \<Rightarrow> (Inl e, fs) | Inr fs' \<Rightarrow> (Inr d, fs')) \<and>
             k \<notin> set ns \<and>
             (0 \<le> m \<longrightarrow> 0 < k) \<and>
             ((0 < k \<and> (\<forall>j. 0 < j \<and> j \<notin> set ns \<longrightarrow> k \<le> j)) \<longleftrightarrow>
                (0 \<le> m \<and> card gaps \<le> 1)))"
proof -
  define k where
    "k = (if {i. 1 \<le> i \<and> i < Max (set ns) \<and> i \<notin> set ns} = {} then Max (set ns) + 1
          else Max {i. 1 \<le> i \<and> i < Max (set ns) \<and> i \<notin> set ns})"
  have n: "new_case_number_of ns = Inr k"
    unfolding k_def using assms(2) by (rule new_case_number_of_eq)
  have c: "create_new_case_folder fs =
          (case mkdir (SNAPSHOTS_DIR @ [''Case'' @ format_02d k]) fs of
             Inl e \<Rightarrow> (Inl e, fs)
           | Inr fs' \<Rightarrow> (Inr (SNAPSHOTS_DIR @ [''Case'' @ format_02d k]), fs'))"
    unfolding create_new_case_folder_def
    by (simp add: assms(1) n bind_io_def pure_io_def effect_io_def return_io_def Let_def
          split: sum.splits)
  note f = allocated_number_facts [OF assms(2), folded k_def]
  from c f(1) f(2) f(3) show ?thesis unfolding Let_def k_def by blast
qed

theorem create_new_case_folder_allocates_witness:
  "case_numbers_of (find_cases fs_124) = Inr [1, 2, 4] \<and> [1, 2, 4 :: int] \<noteq> [] \<and>
   fst (create_new_case_folder fs_124) = Inr (SNAPSHOTS_DIR @ [''Case03'']) \<and>
   case_numbers_of (find_cases fs_123) = Inr [1, 2, 3] \<and>
   fst (create_new_case_folder fs_123) = Inr (SNAPSHOTS_DIR @ [''Case04''])"
proof -
  have a: "case_numbers_of (find_cases fs_124) = Inr [1, 2, 4]" by code_simp
  have b: "case_numbers_of (find_cases fs_123) = Inr [1, 2, 3]" by code_simp
  have ne: "[1, 2, 4 :: int] \<noteq> []" "[1, 2, 3 :: int] \<noteq> []" by simp_all
  have m: "Max (set [1, 2, 4 :: int]) = 4" "Max (set [1, 2, 3 :: int]) = 3" by simp_all
  have g: "{i::int. 1 \<le> i \<and> i < 4 \<and> i \<notin> set [1, 2, 4]} = {3}"
          "{i::int. 1 \<le> i \<and> i < 3 \<and> i \<notin> set [1, 2, 3]} = {}" by auto
  have k: "(if {3::int} = {} then 4 + 1 else Max {3::int}) = 3"
          "(if ({}::int set) = {} then 3 + 1 else Max {}) = (4::int)" by simp_all
  have f: "''Case'' @ format_02d 3 = ''Case03''" "''Case'' @ format_02d 4 = ''Case04''"
    by code_simp+
  have ma: "mkdir (SNAPSHOTS_DIR @ [''Case03'']) fs_124 \<noteq> Inl e"
   and mb: "mkdir (SNAPSHOTS_DIR @ [''Case04'']) fs_123 \<noteq> Inl e" for e by code_simp+
  have "fst (create_new_case_folder fs_124) = Inr (SNAPSHOTS_DIR @ [''Case03''])"
    using create_new_case_folder_allocates
            [OF a ne(1), unfolded Let_def, THEN conjunct1, unfolded m g k f] ma
    by (simp split: sum.splits)
  moreover have "fst (create_new_case_folder fs_123) = Inr (SNAPSHOTS_DIR @ [''Case04''])"
    using create_new_case_folder_allocates
            [OF b ne(2), unfolded Let_def, THEN conjunct1, unfolded m g k f] mb
    by (simp split: sum.splits)
  ultimately show ?thesis using a b by simp
qed

text \<open>
  With the cases 1 and 4 the allocation is 3, although 2 is a smaller unused number. With
  the single case \<open>Case-5\<close> the allocation is \<open>Case-4\<close>, which is not positive. With a case
  directory \<open>Case_old\<close> the allocation raises, for \<open>int\<close> does not read its suffix.
\<close>

theorem smallest_gap_counterexample:
  "case_numbers_of (find_cases fs_14) = Inr [1, 4] \<and>
   fst (create_new_case_folder fs_14) = Inr (SNAPSHOTS_DIR @ [''Case03'']) \<and>
   (2::int) \<notin> set [1, 4] \<and> (0::int) < 2 \<and> (2::int) < 3 \<and>
   case_numbers_of (find_cases fs_negative) = Inr [- 5] \<and>
   fst (create_new_case_folder fs_negative) = Inr (SNAPSHOTS_DIR @ [''Case-4'']) \<and>
   find_cases fs_unparsable = [SNAPSHOTS_DIR @ [''Case01''], SNAPSHOTS_DIR @ [''Case_old'']] \<and>
   create_new_case_folder fs_unparsable =
     (Inl (ValueError (''invalid literal for int() with base 10: '' @ quoted ''_old'')),
      fs_unparsable)"
  by code_simp

text \<open>
  C4. With no case directory, \<open>create_new_case_folder\<close> raises the \<open>ValueError\<close> of
  \<open>max\<close> on an empty list, and so does \<open>test_snapshots\<close> in create mode; the file system
  is left as it was, so no case directory is created.
\<close>
theorem create_without_cases_raises:
  assumes "find_cases fs = []"
  shows "create_new_case_folder fs = (Inl (ValueError ''max() arg is an empty sequence''), fs) \<and>
         test_snapshots X ''create'' fs =
           (Inl (ValueError ''max() arg is an empty sequence''), fs)"
proof -
  have c: "create_new_case_folder fs = (Inl (ValueError ''max() arg is an empty sequence''), fs)"
    unfolding create_new_case_folder_def
    by (simp add: assms new_case_number_of_def bind_io_def pure_io_def)
  then show ?thesis
    unfolding test_snapshots_def by (simp add: bind_io_def)
qed

theorem create_without_cases_raises_witness:
  "find_cases fs_no_cases = [] \<and>
   create_new_case_folder fs_no_cases =
     (Inl (ValueError ''max() arg is an empty sequence''), fs_no_cases) \<and>
   test_snapshots exact_ext ''create'' fs_no_cases =
     (Inl (ValueError ''max() arg is an empty sequence''), fs_no_cases) \<and>
   find_cases (Dir []) = [] \<and>
   test_snapshots exact_ext ''create'' (Dir []) =
     (Inl (ValueError ''max() arg is an empty sequence''), Dir [])"
proof -
  have a: "find_cases fs_no_cases = []" by code_simp
  have b: "find_cases (Dir []) = []" by code_simp
  show ?thesis
    using create_without_cases_raises [OF a, of exact_ext]
      create_without_cases_raises [OF b, of exact_ext] a b
    by simp
qed

text \<open>
  C7. \<open>find_cases\<close> returns exactly the entries of the snapshots directory that are
  directories and whose name starts with \<open>Case\<close>; other directories and all plain files
  are left out. For the directories Case01, Case03, NotACase and the file Case02.txt the
  result is Case01 and Case03.
\<close>
theorem find_cases_exact:
  "set (find_cases fs) =
     {SNAPSHOTS_DIR @ [name] | name sub.
        (\<exists>es. lookup fs SNAPSHOTS_DIR = Some (Dir es) \<and> (name, Dir sub) \<in> set es) \<and>
        prefix ''Case'' name}"
proof -
  have d: "node_is_dir n = (\<exists>sub. n = Dir sub)" for n by (cases n) simp_all
  show ?thesis
  proof (cases "lookup fs SNAPSHOTS_DIR")
    case None
    then show ?thesis by (simp add: find_cases_def is_dir_def)
  next
    case (Some n)
    show ?thesis
    proof (cases n)
      case (File c)
      with Some show ?thesis by (simp add: find_cases_def is_dir_def)
    next
      case (Dir es)
      with Some show ?thesis
        by (fastforce simp: find_cases_def is_dir_def iterdir_def d image_iff)
    qed
  qed
qed

theorem find_cases_exact_witness:
  "find_cases fs_discovery = [SNAPSHOTS_DIR @ [''Case01''], SNAPSHOTS_DIR @ [''Case03'']] \<and>
   {SNAPSHOTS_DIR @ [name] | name sub.
      (\<exists>es. lookup fs_discovery SNAPSHOTS_DIR = Some (Dir es) \<and> (name, Dir sub) \<in> set es) \<and>
      prefix ''Case'' name}
     = {SNAPSHOTS_DIR @ [''Case01''], SNAPSHOTS_DIR @ [''Case03'']}"
proof -
  have a: "find_cases fs_discovery = [SNAPSHOTS_DIR @ [''Case01''], SNAPSHOTS_DIR @ [''Case03'']]"
    by code_simp
  show ?thesis using find_cases_exact [of fs_discovery] unfolding a by simp
qed

section \<open>The model and the comparators\<close>

lemma csv_lines_total:
  "csv_lines X \<lparr>index = [PInt 0], columns = [(''total'', [v])]\<rparr> =
     ['',total'', ''0,'' @ csv_field X v]"
proof -
  have z: "str_int 0 = ''0''" by code_simp
  show ?thesis
    by (simp add: csv_lines_def csv_cell_def csv_field_def z)
qed

text \<open>
  C8 (amended). For settings that hold values under \<open>a\<close> and \<open>b\<close> and that also hold the
  key \<open>create_output_files\<close>, \<open>main\<close> computes Python's \<open>a - b\<close> (the exact difference
  for integers and booleans, the interpreter's float subtraction when a float is
  involved) and raises its error if it has one. Otherwise it builds an output set with
  the single item \<open>df\<close> of extension \<open>csv\<close>: a frame with the index 0 and the one column
  \<open>total\<close> whose cell is that difference. It returns the set at once when the flag is
  false; when the flag is true it first exports the item to \<open>df.csv\<close> in the library's
  default folder. The text of that csv is the header line \<open>,total\<close> (the index has no
  name, the one column is \<open>total\<close>) and the single data row of the index 0 and the cell.
\<close>

theorem main_total:
  assumes "map_of d ''a'' = Some va" and "map_of d ''b'' = Some vb"
    and "map_of d ''create_output_files'' = Some flag"
  shows
    "main X (Some (PDict d)) fs =
       (case py_sub X va vb of
          Inl e \<Rightarrow> (Inl e, fs)
        | Inr v \<Rightarrow>
            (let df = \<lparr>index = [PInt 0], columns = [(''total'', [v])]\<rparr>;
                 out = \<lparr>output_items =
                          [\<lparr>item_data = CsvData df, item_filename = ''df'',
                            item_extension = ''csv''\<rparr>]\<rparr>
             in if py_truthy flag
                then (case mkdir (default_folder X) fs of
                        Inl e \<Rightarrow> (Inl e, fs)
                      | Inr fs1 \<Rightarrow>
                          (case write_file (default_folder X @ [''df.csv'']) (CsvData df) fs1 of
                             Inl e \<Rightarrow> (Inl e, fs1)
                           | Inr fs2 \<Rightarrow> (Inr out, fs2)))
                else (Inr out, fs))) \<and>
     (as_int va = Some x \<and> as_int vb = Some y \<longrightarrow> py_sub X va vb = Inr (PInt (x - y))) \<and>
     (is_number va \<and> is_number vb \<and> (is_float va \<or> is_float vb) \<longrightarrow>
        py_sub X va vb = float_sub X va vb) \<and>
     csv_lines X \<lparr>index = [PInt 0], columns = [(''total'', [v])]\<rparr> =
       ['',total'', ''0,'' @ csv_field X v]"
proof (intro conjI)
  show "main X (Some (PDict d)) fs =
       (case py_sub X va vb of
          Inl e \<Rightarrow> (Inl e, fs)
        | Inr v \<Rightarrow>
            (let df = \<lparr>index = [PInt 0], columns = [(''total'', [v])]\<rparr>;
                 out = \<lparr>output_items =
                          [\<lparr>item_data = CsvData df, item_filename = ''df'',
                            item_extension = ''csv''\<rparr>]\<rparr>
             in if py_truthy flag
                then (case mkdir (default_folder X) fs of
                        Inl e \<Rightarrow> (Inl e, fs)
                      | Inr fs1 \<Rightarrow>
                          (case write_file (default_folder X @ [''df.csv'']) (CsvData df) fs1 of
                             Inl e \<Rightarrow> (Inl e, fs1)
                           | Inr fs2 \<Rightarrow> (Inr out, fs2)))
                else (Inr out, fs)))"
    unfolding main_def
    by (simp add: assms bind_io_def pure_io_def return_io_def effect_io_def Let_def
          set_column_def DataFrame_def add_item_def OutputSet_def export_to_file_def
          split: sum.splits)
  show "as_int va = Some x \<and> as_int vb = Some y \<longrightarrow> py_sub X va vb = Inr (PInt (x - y))"
    by (simp add: py_sub_def)
  show "is_number va \<and> is_number vb \<and> (is_float va \<or> is_float vb) \<longrightarrow>
          py_sub X va vb = float_sub X va vb"
    by (cases va; cases vb) (simp_all add: py_sub_def)
  show "csv_lines X \<lparr>index = [PInt 0], columns = [(''total'', [v])]\<rparr> =
       ['',total'', ''0,'' @ csv_field X v]"
    by (rule csv_lines_total)
qed

theorem main_total_witness:
  "main exact_ext (Some settings_10_3_off) (Dir []) = (Inr (total_output 7), Dir []) \<and>
   main exact_ext (Some settings_10_3_on) (Dir []) =
     (Inr (total_output 7),
      Dir [(''Outputs'', Dir [(''df.csv'', File (CsvData (total_frame 7)))])]) \<and>
   csv_lines exact_ext (total_frame 7) = ['',total'', ''0,7'']"
proof -
  have s: "py_sub exact_ext (PInt 10) (PInt 3) = Inr (PInt 7)"
    using main_total [of "[(''a'', PInt 10), (''b'', PInt 3), (''create_output_files'', PBool False)]"
      "PInt 10" "PInt 3" "PBool False" exact_ext "Dir []" 10 3 PNone]
    by simp
  have m: "mkdir (default_folder exact_ext) (Dir []) = Inr (Dir [(''Outputs'', Dir [])])"
    by code_simp
  have w: "write_file (default_folder exact_ext @ [''df.csv'']) (CsvData (total_frame 7))
             (Dir [(''Outputs'', Dir [])]) =
           Inr (Dir [(''Outputs'', Dir [(''df.csv'', File (CsvData (total_frame 7)))])])"
    by code_simp
  have f: "csv_field exact_ext (PInt 7) = ''7''" by code_simp
  have 1: "main exact_ext (Some settings_10_3_off) (Dir []) = (Inr (total_output 7), Dir [])"
    using main_total [of "[(''a'', PInt 10), (''b'', PInt 3), (''create_output_files'', PBool False)]"
      "PInt 10" "PInt 3" "PBool False" exact_ext "Dir []" 10 3 PNone]
    by (simp add: s settings_10_3_off_def total_output_def total_frame_def)
  have 2: "main exact_ext (Some settings_10_3_on) (Dir []) =
     (Inr (total_output 7),
      Dir [(''Outputs'', Dir [(''df.csv'', File (CsvData (total_frame 7)))])])"
    using main_total [of "[(''a'', PInt 10), (''b'', PInt 3), (''create_output_files'', PBool True)]"
      "PInt 10" "PInt 3" "PBool True" exact_ext "Dir []" 10 3 PNone]
      m w [unfolded total_frame_def]
    by (simp add: s settings_10_3_on_def total_output_def total_frame_def Let_def)
  have 3: "csv_lines exact_ext (total_frame 7) = ['',total'', ''0,7'']"
    using main_total [of "[(''a'', PInt 10), (''b'', PInt 3), (''create_output_files'', PBool False)]"
      "PInt 10" "PInt 3" "PBool False" exact_ext "Dir []" 10 3 "PInt 7"]
    by (simp add: f total_frame_def)
  from 1 2 3 show ?thesis by simp
qed

text \<open>
  Called with the settings \<open>{"a": 10, "b": 3}\<close> alone, \<open>main\<close> raises a \<open>KeyError\<close>: it
  reads the key \<open>create_output_files\<close>, which these settings lack.
\<close>

theorem main_missing_flag_counterexample:
  "main exact_ext (Some settings_10_3) (Dir []) = (Inl (KeyError ''create_output_files''), Dir [])"
  by (simp add: main_def settings_10_3_def bind_io_def pure_io_def return_io_def py_sub_def Let_def)



lemma npz_getitem_member:
  "name \<in> set (npz_files z) \<Longrightarrow> \<exists>a. npz_getitem z name = Inr a"
  by (induction z) (auto simp: npz_files_def npz_getitem_def)

lemma compare_members_mismatch:
  assumes "set names \<subseteq> set (npz_files data)" and "set names \<subseteq> set (npz_files expected_data)"
    and "name \<in> set names" and "npz_getitem data name = Inr a"
    and "npz_getitem expected_data name = Inr b"
    and "\<not> assert_allclose X ABSOLUTE_TOLERANCE RELATIVE_TOLERANCE a b"
  shows "compare_members X data expected_data names = Inl AssertionError"
  using assms
proof (induction names)
  case Nil
  then show ?case by simp
next
  case (Cons n ns)
  from Cons.prems obtain u v where u: "npz_getitem data n = Inr u"
    and v: "npz_getitem expected_data n = Inr v"
    using npz_getitem_member [of n data] npz_getitem_member [of n expected_data] by auto
  show ?case
  proof (cases "assert_allclose X ABSOLUTE_TOLERANCE RELATIVE_TOLERANCE u v")
    case False
    with u v show ?thesis by simp
  next
    case True
    with Cons.prems u v have "name \<in> set ns" by auto
    with Cons True u v show ?thesis by simp
  qed
qed

text \<open>
  C6. For two archives that load: when the sets of member names differ, \<open>assert_npz\<close>
  raises the \<open>KeyError\<close> of a key mismatch, whatever the element-wise comparison would
  say; when they agree and the element-wise comparison (numpy's, with the absolute
  tolerance \<open>1e-8\<close> and the relative tolerance 0) rejects some member, it raises an
  \<open>AssertionError\<close>, which is another kind of error.
\<close>
theorem assert_npz_error_kinds:
  assumes "np_load fs out = Inr data" and "np_load fs expected = Inr expected_data"
  shows
    "(set (npz_files data) \<noteq> set (npz_files expected_data) \<longrightarrow>
        assert_npz X out expected fs = Inl (KeyError ''The .npz archives have different keys.'')) \<and>
     (set (npz_files data) = set (npz_files expected_data) \<and>
      (\<exists>name a b. name \<in> set (npz_files expected_data) \<and>
         npz_getitem data name = Inr a \<and> npz_getitem expected_data name = Inr b \<and>
         \<not> assert_allclose X ABSOLUTE_TOLERANCE RELATIVE_TOLERANCE a b) \<longrightarrow>
        assert_npz X out expected fs = Inl AssertionError) \<and>
     AssertionError \<noteq> KeyError ''The .npz archives have different keys.''"
proof (intro conjI impI)
  assume "set (npz_files data) \<noteq> set (npz_files expected_data)"
  then show "assert_npz X out expected fs = Inl (KeyError ''The .npz archives have different keys.'')"
    by (simp add: assert_npz_def assms)
next
  assume h: "set (npz_files data) = set (npz_files expected_data) \<and>
      (\<exists>name a b. name \<in> set (npz_files expected_data) \<and>
         npz_getitem data name = Inr a \<and> npz_getitem expected_data name = Inr b \<and>
         \<not> assert_allclose X ABSOLUTE_TOLERANCE RELATIVE_TOLERANCE a b)"
  then obtain name a b where n: "name \<in> set (npz_files expected_data)"
    and a: "npz_getitem data name = Inr a" and b: "npz_getitem expected_data name = Inr b"
    and c: "\<not> assert_allclose X ABSOLUTE_TOLERANCE RELATIVE_TOLERANCE a b" by blast
  from h have s: "set (npz_files expected_data) \<subseteq> set (npz_files data)" by simp
  have "compare_members X data expected_data (npz_files expected_data) = Inl AssertionError"
    using s subset_refl n a b c by (rule compare_members_mismatch)
  with h show "assert_npz X out expected fs = Inl AssertionError"
    by (simp add: assert_npz_def assms)
next
  show "AssertionError \<noteq> KeyError ''The .npz archives have different keys.''" by simp
qed

theorem assert_npz_error_kinds_witness:
  "assert_npz exact_ext [''keys'', ''m.npz''] [''exp'', ''m.npz''] fs_npz =
     Inl (KeyError ''The .npz archives have different keys.'') \<and>
   assert_npz exact_ext [''vals'', ''m.npz''] [''exp'', ''m.npz''] fs_npz = Inl AssertionError \<and>
   assert_npz exact_ext [''same'', ''m.npz''] [''exp'', ''m.npz''] fs_npz = Inr ()"
proof -
  let ?e = "[(''x'', arr [1, 2]), (''y'', arr [3])]"
  let ?k = "[(''x'', arr [1, 2])]"
  let ?v = "[(''x'', arr [1, 5]), (''y'', arr [3])]"
  have e: "np_load fs_npz [''exp'', ''m.npz''] = Inr ?e" by code_simp
  have k: "np_load fs_npz [''keys'', ''m.npz''] = Inr ?k" by code_simp
  have v: "np_load fs_npz [''vals'', ''m.npz''] = Inr ?v" by code_simp
  have 1: "set (npz_files ?k) \<noteq> set (npz_files ?e)" by (simp add: npz_files_def)
  have 2: "set (npz_files ?v) = set (npz_files ?e)" by (simp add: npz_files_def)
  have 3: "''x'' \<in> set (npz_files ?e)" "npz_getitem ?v ''x'' = Inr (arr [1, 5])"
    "npz_getitem ?e ''x'' = Inr (arr [1, 2])"
    "\<not> assert_allclose exact_ext ABSOLUTE_TOLERANCE RELATIVE_TOLERANCE (arr [1, 5]) (arr [1, 2])"
    by (simp_all add: npz_files_def npz_getitem_def exact_ext_def arr_def)
  have "assert_npz exact_ext [''keys'', ''m.npz''] [''exp'', ''m.npz''] fs_npz =
     Inl (KeyError ''The .npz archives have different keys.'')"
    using assert_npz_error_kinds [OF k e, of exact_ext] 1 by blast
  moreover have "assert_npz exact_ext [''vals'', ''m.npz''] [''exp'', ''m.npz''] fs_npz = Inl AssertionError"
    using assert_npz_error_kinds [OF v e, of exact_ext] 2 3 by blast
  moreover have "assert_npz exact_ext [''same'', ''m.npz''] [''exp'', ''m.npz''] fs_npz = Inr ()"
    by code_simp
  ultimately show ?thesis by simp
qed

section \<open>Lemmas on the file system\<close>

lemma lookup_append:
  "lookup fs (p @ q) = (case lookup fs p of None \<Rightarrow> None | Some n \<Rightarrow> lookup n q)"
  by (induction p arbitrary: fs) (auto split: node.splits option.splits)

lemma map_of_update_same: "map_of (AList.update k v al) k = Some v"
  by (simp add: update_conv')

lemma map_of_update_other: "k' \<noteq> k \<Longrightarrow> map_of (AList.update k v al) k' = map_of al k'"
  by (simp add: update_conv')

lemma map_of_delete_same: "map_of (AList.delete k al) k = None"
  by (simp add: delete_conv')

lemma map_of_delete_other: "k' \<noteq> k \<Longrightarrow> map_of (AList.delete k al) k' = map_of al k'"
  by (simp add: delete_conv')

lemmas map_of_alist = map_of_update_same map_of_update_other map_of_delete_same
  map_of_delete_other

text \<open>What \<open>alter\<close> leaves at the parent of the altered entry.\<close>

lemma alter_parent:
  assumes "alter (p @ [n]) f fs = Inr fs'"
  shows "\<exists>es r. lookup fs p = Some (Dir es) \<and> f (map_of es n) = Inr r \<and>
           lookup fs' p =
             Some (Dir (case r of None \<Rightarrow> AList.delete n es | Some x \<Rightarrow> AList.update n x es))"
  using assms
proof (induction p arbitrary: fs fs')
  case Nil
  then show ?case
    by (cases fs) (auto split: sum.splits option.splits)
next
  case (Cons c p)
  show ?case
  proof (cases fs)
    case (File x)
    with Cons.prems show ?thesis by simp
  next
    case (Dir es)
    obtain d ds where pn: "p @ [n] = d # ds" by (cases "p @ [n]") auto
    from Cons.prems Dir pn obtain m m' where m: "map_of es c = Some m"
      and a: "alter (p @ [n]) f m = Inr m'" and fs': "fs' = Dir (AList.update c m' es)"
      by (auto split: option.splits sum.splits)
    from Cons.IH [OF a] m fs' Dir show ?thesis
      by (auto simp: map_of_alist)
  qed
qed

lemma alter_lookup:
  assumes "alter p f fs = Inr fs'" and "p \<noteq> []"
  shows "\<exists>r. f (lookup fs p) = Inr r \<and> lookup fs' p = r"
proof -
  from assms(2) obtain q n where p: "p = q @ [n]" by (cases p rule: rev_cases) auto
  from alter_parent [OF assms(1) [unfolded p]] obtain es r where
    "lookup fs q = Some (Dir es)" and "f (map_of es n) = Inr r"
    and "lookup fs' q =
           Some (Dir (case r of None \<Rightarrow> AList.delete n es | Some x \<Rightarrow> AList.update n x es))"
    by blast
  then show ?thesis unfolding p
    by (auto simp: lookup_append map_of_alist split: option.splits)
qed

text \<open>Paths off the altered one keep what they hold.\<close>

lemma alter_other:
  assumes "alter p f fs = Inr fs'" and "\<not> prefix p q" and "\<not> prefix q p"
  shows "lookup fs' q = lookup fs q"
  using assms
proof (induction p f fs arbitrary: fs' q rule: alter.induct)
  case (1 f n)
  then show ?case by simp
next
  case (2 c cs f x)
  then show ?case by simp
next
  case (3 c f es)
  from "3.prems" obtain d ds where q: "q = d # ds" and "d \<noteq> c" by (cases q) auto
  with "3.prems" show ?case
    by (auto simp: map_of_alist split: sum.splits option.splits)
next
  case (4 c d cs f es)
  from "4.prems" obtain m m' where m: "map_of es c = Some m"
    and a: "alter (d # cs) f m = Inr m'" and fs': "fs' = Dir (AList.update c m' es)"
    by (auto split: option.splits sum.splits)
  from "4.prems" obtain e qs where q: "q = e # qs" by (cases q) auto
  show ?case
  proof (cases "e = c")
    case False
    with q fs' show ?thesis by (simp add: map_of_alist)
  next
    case True
    with "4.prems" q have "\<not> prefix (d # cs) qs" and "\<not> prefix qs (d # cs)" by simp_all
    with "4.IH" [OF m a] have "lookup m' qs = lookup m qs" by simp
    with True q fs' m show ?thesis by (simp add: map_of_alist)
  qed
qed

lemma alter_succeeds:
  assumes "lookup fs p = Some n" and "p \<noteq> []" and "f (Some n) = Inr r"
  shows "\<exists>fs'. alter p f fs = Inr fs'"
  using assms
proof (induction p f fs rule: alter.induct)
  case (1 f n)
  then show ?case by simp
next
  case (2 c cs f x)
  then show ?case by simp
next
  case (3 c f es)
  then show ?case by (auto split: option.splits)
next
  case (4 c d cs f es)
  then show ?case by (auto split: option.splits sum.splits)
qed

lemma mkdir_lookup:
  assumes "mkdir p fs = Inr fs'"
  shows "lookup fs' p = (if is_dir fs p then lookup fs p else Some (Dir []))"
  using assms
proof (induction p fs arbitrary: fs' rule: mkdir.induct)
  case (1 es)
  then show ?case by (auto simp: is_dir_def)
next
  case (2 c)
  then show ?case by simp
next
  case (3 c cs x)
  then show ?case by simp
next
  case (4 c cs es)
  let ?m = "case map_of es c of None \<Rightarrow> Dir [] | Some m \<Rightarrow> m"
  from "4.prems" obtain m' where a: "mkdir cs ?m = Inr m'"
    and fs': "fs' = Dir (AList.update c m' es)" by (auto split: sum.splits)
  from "4.IH" [OF a] have l: "lookup m' cs = (if is_dir ?m cs then lookup ?m cs else Some (Dir []))" .
  show ?case
  proof (cases "map_of es c")
    case None
    have "lookup (Dir []) cs = (if cs = [] then Some (Dir []) else None)" by (cases cs) simp_all
    with l None fs' show ?thesis
      by (auto simp: map_of_alist is_dir_def split: if_splits option.splits)
  next
    case (Some m)
    with l fs' show ?thesis by (simp add: map_of_alist is_dir_def)
  qed
qed

lemma mkdir_other:
  assumes "mkdir p fs = Inr fs'" and "\<not> prefix p q" and "\<not> prefix q p"
  shows "lookup fs' q = lookup fs q"
  using assms
proof (induction p fs arbitrary: fs' q rule: mkdir.induct)
  case (1 es)
  then show ?case by simp
next
  case (2 c)
  then show ?case by simp
next
  case (3 c cs x)
  then show ?case by simp
next
  case (4 c cs es)
  let ?m = "case map_of es c of None \<Rightarrow> Dir [] | Some m \<Rightarrow> m"
  from "4.prems" obtain m' where a: "mkdir cs ?m = Inr m'"
    and fs': "fs' = Dir (AList.update c m' es)" by (auto split: sum.splits)
  from "4.prems" obtain e qs where q: "q = e # qs" by (cases q) auto
  show ?case
  proof (cases "e = c")
    case False
    with q fs' show ?thesis by (simp add: map_of_alist)
  next
    case True
    with "4.prems" q have "\<not> prefix cs qs" and "\<not> prefix qs cs" by simp_all
    with "4.IH" [OF a] have l: "lookup m' qs = lookup ?m qs" by simp
    from \<open>\<not> prefix qs cs\<close> obtain x xs where "qs = x # xs" by (cases qs) auto
    then have "lookup (Dir []) qs = None" by simp
    with l True q fs' show ?thesis by (simp add: map_of_alist split: option.splits)
  qed
qed

lemma rmtree_lookup:
  assumes "rmtree p fs = Inr fs'" and "p \<noteq> []"
  shows "lookup fs' p = None"
  using alter_lookup [OF assms(1) [unfolded rmtree_def] assms(2)]
  by (auto split: option.splits node.splits)

lemma rmtree_other:
  "rmtree p fs = Inr fs' \<Longrightarrow> \<not> prefix p q \<Longrightarrow> \<not> prefix q p \<Longrightarrow> lookup fs' q = lookup fs q"
  unfolding rmtree_def by (rule alter_other)

lemma rmtree_succeeds:
  assumes "is_dir fs p" and "p \<noteq> []"
  shows "\<exists>fs'. rmtree p fs = Inr fs'"
proof -
  from assms(1) obtain es where "lookup fs p = Some (Dir es)"
    by (auto simp: is_dir_def split: option.splits elim: node_is_dir.elims)
  then show ?thesis unfolding rmtree_def using assms(2)
    by (rule alter_succeeds) simp
qed

lemma write_file_parent:
  assumes "write_file (p @ [n]) c fs = Inr fs'"
  shows "\<exists>es. lookup fs p = Some (Dir es) \<and>
           lookup fs' p = Some (Dir (AList.update n (File c) es))"
proof -
  from alter_parent [OF assms [unfolded write_file_def]] obtain es r where
    l: "lookup fs p = Some (Dir es)"
    and r: "(case map_of es n of Some (Dir _) \<Rightarrow> Inl IsADirectoryError
             | _ \<Rightarrow> Inr (Some (File c))) = Inr r"
    and l': "lookup fs' p =
           Some (Dir (case r of None \<Rightarrow> AList.delete n es | Some x \<Rightarrow> AList.update n x es))"
    by blast
  from r have "r = Some (File c)" by (auto split: option.splits node.splits)
  with l l' show ?thesis by simp
qed

lemma off_path_snoc:
  assumes "\<not> prefix p q" and "\<not> prefix q p"
  shows "\<not> prefix (p @ [x]) q" and "\<not> prefix q (p @ [x])"
proof -
  show "\<not> prefix (p @ [x]) q" using assms(1) append_prefixD by blast
  show "\<not> prefix q (p @ [x])"
  proof
    assume "prefix q (p @ [x])"
    then have "q = p @ [x] \<or> prefix q p" by (simp only: prefix_snoc)
    with assms show False by auto
  qed
qed

lemma write_file_other:
  "write_file p c fs = Inr fs' \<Longrightarrow> \<not> prefix p q \<Longrightarrow> \<not> prefix q p \<Longrightarrow>
     lookup fs' q = lookup fs q"
  unfolding write_file_def by (rule alter_other)

lemma bind_io_Inr:
  assumes "bind_io m k fs = (Inr y, fs')"
  obtains x fs1 where "m fs = (Inr x, fs1)" and "k x fs1 = (Inr y, fs')"
  using assms by (auto simp: bind_io_def split: prod.splits sum.splits)

lemma effect_io_Inr [simp]: "effect_io f fs = (Inr u, fs') \<longleftrightarrow> f fs = Inr fs'"
  by (auto simp: effect_io_def split: sum.splits)

lemma pure_io_Inr [simp]: "pure_io f fs = (Inr x, fs') \<longleftrightarrow> f fs = Inr x \<and> fs' = fs"
  by (auto simp: pure_io_def)

lemma return_io_Inr [simp]: "return_io x fs = (Inr y, fs') \<longleftrightarrow> y = x \<and> fs' = fs"
  by (auto simp: return_io_def)

lemma for_each_invariant:
  assumes "for_each body xs fs = (Inr u, fs')" and "P fs"
    and "\<And>x s s' v. x \<in> set xs \<Longrightarrow> body x s = (Inr v, s') \<Longrightarrow> P s \<Longrightarrow> P s'"
  shows "P fs'"
  using assms
proof (induction xs arbitrary: fs)
  case Nil
  then show ?case by simp
next
  case (Cons x xs)
  from Cons.prems(1) obtain v s where b: "body x fs = (Inr v, s)"
    and r: "for_each body xs s = (Inr u, fs')"
    by (auto elim!: bind_io_Inr)
  have "P s" using Cons.prems(3) [of x fs v s] b Cons.prems(2) by simp
  with r show ?case
  proof (rule Cons.IH)
    fix y t t' w
    assume "y \<in> set xs" and "body y t = (Inr w, t')" and "P t"
    then show "P t'" using Cons.prems(3) [of y t w t'] by simp
  qed
qed

lemma export_to_file_Inr:
  assumes "export_to_file p item fs = (Inr v, fs')"
  obtains fs1 where "mkdir p fs = Inr fs1"
    and "write_file (p @ [item_filename item @ ''.'' @ item_extension item]) (item_data item) fs1
           = Inr fs'"
  using assms unfolding export_to_file_def
  by (auto elim!: bind_io_Inr split: if_splits)

lemma export_to_file_parent:
  assumes "export_to_file p item fs = (Inr v, fs')"
  shows "is_dir fs' p"
proof -
  from assms obtain fs1 where
    "write_file (p @ [item_filename item @ ''.'' @ item_extension item]) (item_data item) fs1
       = Inr fs'"
    by (rule export_to_file_Inr)
  from write_file_parent [OF this] show ?thesis by (auto simp: is_dir_def)
qed

lemma export_to_file_other:
  assumes "export_to_file p item fs = (Inr v, fs')" and "\<not> prefix p q" and "\<not> prefix q p"
  shows "lookup fs' q = lookup fs q"
proof -
  let ?w = "p @ [item_filename item @ ''.'' @ item_extension item]"
  from assms(1) obtain fs1 where m: "mkdir p fs = Inr fs1"
    and w: "write_file ?w (item_data item) fs1 = Inr fs'"
    by (rule export_to_file_Inr)
  have "lookup fs1 q = lookup fs q" using m assms(2,3) by (rule mkdir_other)
  moreover have "lookup fs' q = lookup fs1 q"
    using w off_path_snoc [OF assms(2,3)] by (rule write_file_other)
  ultimately show ?thesis by simp
qed

lemma clear_folder:
  assumes "(if is_dir fs p then effect_io (rmtree p) fs else return_io () fs) = (Inr u, fsA)"
    and "p \<noteq> []"
  shows "\<not> is_dir fsA p"
    and "\<not> prefix p q \<Longrightarrow> \<not> prefix q p \<Longrightarrow> lookup fsA q = lookup fs q"
proof -
  show "\<not> is_dir fsA p"
  proof (cases "is_dir fs p")
    case True
    with assms have "rmtree p fs = Inr fsA" by simp
    from rmtree_lookup [OF this assms(2)] show ?thesis by (simp add: is_dir_def)
  next
    case False
    with assms show ?thesis by simp
  qed
  show "lookup fsA q = lookup fs q" if "\<not> prefix p q" and "\<not> prefix q p"
  proof (cases "is_dir fs p")
    case True
    with assms have "rmtree p fs = Inr fsA" by simp
    from rmtree_other [OF this that] show ?thesis .
  next
    case False
    with assms show ?thesis by simp
  qed
qed

lemma export_outputs_is_dir:
  assumes "export_outputs p out fs = (Inr u, fs')"
  shows "is_dir fs' p"
proof -
  from assms obtain fsA fsB where m: "mkdir p fsA = Inr fsB"
    and f: "for_each (\<lambda>item. if item_extension item \<noteq> ''html'' then export_to_file p item
                               else return_io ()) (output_items out) fsB = (Inr u, fs')"
    unfolding export_outputs_def by (auto elim!: bind_io_Inr)
  from mkdir_lookup [OF m] have "is_dir fsB p"
    by (auto simp: is_dir_def split: if_splits option.splits)
  with f show ?thesis
    by (rule for_each_invariant) (auto split: if_splits dest: export_to_file_parent)
qed

lemma export_outputs_other:
  assumes "export_outputs p out fs = (Inr u, fs')" and "p \<noteq> []"
    and "\<not> prefix p q" and "\<not> prefix q p"
  shows "lookup fs' q = lookup fs q"
proof -
  from assms(1) obtain v fsA fsB where c:
      "(if is_dir fs p then effect_io (rmtree p) fs else return_io () fs) = (Inr v, fsA)"
    and m: "mkdir p fsA = Inr fsB"
    and f: "for_each (\<lambda>item. if item_extension item \<noteq> ''html'' then export_to_file p item
                               else return_io ()) (output_items out) fsB = (Inr u, fs')"
    unfolding export_outputs_def by (auto elim!: bind_io_Inr)
  have "lookup fsA q = lookup fs q" using c assms(2,3,4) by (rule clear_folder(2))
  moreover have "lookup fsB q = lookup fsA q" using m assms(3,4) by (rule mkdir_other)
  ultimately have "lookup fsB q = lookup fs q" by simp
  with f show ?thesis
    by (rule for_each_invariant)
       (auto split: if_splits dest: export_to_file_other [OF _ assms(3,4)])
qed

lemma export_settings_writes:
  assumes "export_settings c s fs = (Inr u, fs')"
  shows "lookup fs' (c @ [INPUTS_FOLDER_NAME]) =
           Some (Dir [(SETTINGS_FILENAME, File (JsonData s))])"
proof -
  let ?p = "c @ [INPUTS_FOLDER_NAME]"
  from assms obtain v fsA fsB where c:
      "(if is_dir fs ?p then effect_io (rmtree ?p) fs else return_io () fs) = (Inr v, fsA)"
    and m: "mkdir ?p fsA = Inr fsB"
    and w: "write_file (?p @ [SETTINGS_FILENAME]) (JsonData s) fsB = Inr fs'"
    unfolding export_settings_def Let_def by (auto elim!: bind_io_Inr)
  have "\<not> is_dir fsA ?p" using c by (rule clear_folder(1)) simp
  with mkdir_lookup [OF m] have "lookup fsB ?p = Some (Dir [])" by simp
  with write_file_parent [OF w] show ?thesis by auto
qed

section \<open>The run modes\<close>

lemma read_file_Inr: "read_file fs p = Inr c \<longleftrightarrow> lookup fs p = Some (File c)"
  by (auto simp: read_file_def split: option.splits node.splits)

lemma json_load_Inr: "json_load p fs = Inr v \<longleftrightarrow> lookup fs p = Some (File (JsonData v))"
proof -
  have "json_load p fs = Inr v \<longleftrightarrow> read_file fs p = Inr (JsonData v)"
    by (auto simp: json_load_def split: sum.splits content.splits)
  then show ?thesis by (simp only: read_file_Inr)
qed

lemma load_settings_Inr:
  assumes "load_settings base fs = Inr s"
  shows "\<exists>d. json_load (base @ [INPUTS_FOLDER_NAME, SETTINGS_FILENAME]) fs = Inr (PDict d) \<and>
           s = PDict (AList.update ''create_output_files'' (PBool False) d)"
proof -
  from assms obtain v where j: "json_load (base @ [INPUTS_FOLDER_NAME, SETTINGS_FILENAME]) fs = Inr v"
    and p: "py_setitem v ''create_output_files'' (PBool False) = Inr s"
    by (auto simp: load_settings_def split: sum.splits)
  from p obtain d where "v = PDict d" by (cases v) simp_all
  with j p show ?thesis by auto
qed

lemma create_new_case_folder_Inr:
  assumes "create_new_case_folder fs = (Inr c, fs')"
  shows "\<exists>name. c = SNAPSHOTS_DIR @ [name] \<and> mkdir c fs = Inr fs'"
  using assms unfolding create_new_case_folder_def Let_def
  by (auto elim!: bind_io_Inr)

text \<open>
  C3 (amended). When a run in create mode completes, the \<open>Inputs\<close> folder of the new case
  holds exactly one file, \<open>settings.json\<close>, and that file holds the settings read from the
  project's input location with the key \<open>create_output_files\<close> set to \<open>False\<close>
  (\<open>load_settings\<close> forces it before the settings are used or written); every other key
  keeps its value and its place.
\<close>
theorem create_writes_loaded_settings:
  assumes "test_snapshots X ''create'' fs = (Inr u, fs')"
  shows "\<exists>c d. fst (create_new_case_folder fs) = Inr c \<and>
           json_load (PROJECT_BASE_DIR @ [INPUTS_FOLDER_NAME, SETTINGS_FILENAME]) fs
             = Inr (PDict d) \<and>
           lookup fs' (c @ [INPUTS_FOLDER_NAME]) =
             Some (Dir [(SETTINGS_FILENAME,
                         File (JsonData (PDict (AList.update ''create_output_files''
                                                   (PBool False) d))))])"
proof -
  from assms obtain c fs0 where n: "create_new_case_folder fs = (Inr c, fs0)"
    and r: "run_case X ''create'' c fs0 = (Inr u, fs')"
    unfolding test_snapshots_def by (auto elim!: bind_io_Inr)
  from r obtain s out fs1 v fs2 where l: "load_settings PROJECT_BASE_DIR fs0 = Inr s"
    and e: "export_settings c s fs1 = (Inr v, fs2)"
    and o: "export_outputs (c @ [EXPECTED_OUTPUTS_FOLDER]) out fs2 = (Inr u, fs')"
    unfolding run_case_def Let_def by (auto elim!: bind_io_Inr)
  from create_new_case_folder_Inr [OF n] obtain name where c: "c = SNAPSHOTS_DIR @ [name]"
    and m: "mkdir c fs = Inr fs0" by blast
  let ?q = "PROJECT_BASE_DIR @ [INPUTS_FOLDER_NAME, SETTINGS_FILENAME]"
  from load_settings_Inr [OF l] obtain d where j: "json_load ?q fs0 = Inr (PDict d)"
    and s: "s = PDict (AList.update ''create_output_files'' (PBool False) d)" by blast
  have "lookup fs0 ?q = lookup fs ?q"
    using m by (rule mkdir_other)
      (simp_all add: c SNAPSHOTS_DIR_def PROJECT_BASE_DIR_def INPUTS_FOLDER_NAME_def)
  with j have j': "json_load ?q fs = Inr (PDict d)" by (simp add: json_load_Inr)
  have w: "lookup fs2 (c @ [INPUTS_FOLDER_NAME]) =
             Some (Dir [(SETTINGS_FILENAME, File (JsonData s))])"
    using e by (rule export_settings_writes)
  have "lookup fs' (c @ [INPUTS_FOLDER_NAME]) = lookup fs2 (c @ [INPUTS_FOLDER_NAME])"
    using o by (rule export_outputs_other)
      (simp_all add: EXPECTED_OUTPUTS_FOLDER_def INPUTS_FOLDER_NAME_def)
  with w s j' n show ?thesis by simp
qed

theorem create_writes_loaded_settings_witness:
  "fst (test_snapshots exact_ext ''create'' fs_create) = Inr () \<and>
   json_load [''Inputs'', ''settings.json''] fs_create = Inr settings_10_3_on \<and>
   lookup (snd (test_snapshots exact_ext ''create'' fs_create))
       (SNAPSHOTS_DIR @ [''Case02'', ''Inputs'']) =
     Some (Dir [(''settings.json'', File (JsonData settings_10_3_off))])"
proof -
  have r: "test_snapshots exact_ext ''create'' fs_create =
             (Inr (), snd (test_snapshots exact_ext ''create'' fs_create))"
    by code_simp
  have c: "fst (create_new_case_folder fs_create) = Inr (SNAPSHOTS_DIR @ [''Case02''])"
    by code_simp
  have j: "json_load (PROJECT_BASE_DIR @ [INPUTS_FOLDER_NAME, SETTINGS_FILENAME]) fs_create =
             Inr settings_10_3_on"
    by code_simp
  have j': "json_load [''Inputs'', ''settings.json''] fs_create = Inr settings_10_3_on"
    by code_simp
  from create_writes_loaded_settings [OF r] c j
  have "lookup (snd (test_snapshots exact_ext ''create'' fs_create))
       (SNAPSHOTS_DIR @ [''Case02'', ''Inputs'']) =
     Some (Dir [(''settings.json'', File (JsonData settings_10_3_off))])"
    by (auto simp: settings_10_3_on_def settings_10_3_off_def INPUTS_FOLDER_NAME_def
          SETTINGS_FILENAME_def)
  moreover have "fst (test_snapshots exact_ext ''create'' fs_create) = Inr ()"
    by (subst r) simp
  ultimately show ?thesis using j' by simp
qed

text \<open>
  With \<open>create_output_files\<close> true in the project's settings, the settings written into
  the new case differ from the settings read.
\<close>

theorem settings_verbatim_counterexample:
  "fst (test_snapshots exact_ext ''create'' fs_create) = Inr () \<and>
   json_load [''Inputs'', ''settings.json''] fs_create = Inr settings_10_3_on \<and>
   json_load (SNAPSHOTS_DIR @ [''Case02'', ''Inputs'', ''settings.json''])
       (snd (test_snapshots exact_ext ''create'' fs_create)) = Inr settings_10_3_off \<and>
   settings_10_3_off \<noteq> settings_10_3_on"
  by code_simp

text \<open>
  C2 (amended). In compare mode, once the outputs of a case are exported to \<open>TempOutputs\<close>:
  when the comparison raises nothing, the case completes and \<open>TempOutputs\<close> is gone;
  when the comparison raises, the error leaves the loop at once and the file system stays
  as the export left it, \<open>TempOutputs\<close> included.
\<close>
theorem compare_cleanup_only_on_success:
  assumes "load_settings c fs = Inr s" and "main X (Some s) fs = (Inr out, fs1)"
    and "export_outputs (c @ [OUTPUTS_FOLDER_NAME]) out fs1 = (Inr u, fs2)"
  shows
    "(compare_outputs X (c @ [EXPECTED_OUTPUTS_FOLDER]) (c @ [OUTPUTS_FOLDER_NAME]) fs2 = Inr () \<longrightarrow>
        fst (run_case X ''compare'' c fs) = Inr () \<and>
        lookup (snd (run_case X ''compare'' c fs)) (c @ [OUTPUTS_FOLDER_NAME]) = None) \<and>
     (\<forall>e. compare_outputs X (c @ [EXPECTED_OUTPUTS_FOLDER]) (c @ [OUTPUTS_FOLDER_NAME]) fs2 = Inl e \<longrightarrow>
        run_case X ''compare'' c fs = (Inl e, fs2) \<and> is_dir fs2 (c @ [OUTPUTS_FOLDER_NAME]))"
proof -
  let ?t = "c @ [OUTPUTS_FOLDER_NAME]"
  let ?cmp = "compare_outputs X (c @ [EXPECTED_OUTPUTS_FOLDER]) ?t fs2"
  have d: "is_dir fs2 ?t" using assms(3) by (rule export_outputs_is_dir)
  have r: "run_case X ''compare'' c fs =
             (case ?cmp of Inl e \<Rightarrow> (Inl e, fs2) | Inr _ \<Rightarrow> effect_io (rmtree ?t) fs2)"
    unfolding run_case_def Let_def
    by (simp add: assms bind_io_def pure_io_def return_io_def split: sum.splits)
  from rmtree_succeeds [OF d] obtain fs3 where k: "rmtree ?t fs2 = Inr fs3" by auto
  from rmtree_lookup [OF k] have g: "lookup fs3 ?t = None" by simp
  show ?thesis using r k g d by (auto simp: effect_io_def)
qed

theorem compare_cleanup_only_on_success_witness:
  "fst (run_case exact_ext ''compare'' (SNAPSHOTS_DIR @ [''Case01'']) fs_matching) = Inr () \<and>
   lookup (snd (run_case exact_ext ''compare'' (SNAPSHOTS_DIR @ [''Case01'']) fs_matching))
     (SNAPSHOTS_DIR @ [''Case01'', ''TempOutputs'']) = None \<and>
   fst (run_case exact_ext ''compare'' (SNAPSHOTS_DIR @ [''Case01'']) fs_unsupported) =
     Inl (ValueError ''File extension '.txt' is not supported.'') \<and>
   is_dir (snd (run_case exact_ext ''compare'' (SNAPSHOTS_DIR @ [''Case01'']) fs_unsupported))
     (SNAPSHOTS_DIR @ [''Case01'', ''TempOutputs''])"
proof -
  let ?c = "SNAPSHOTS_DIR @ [''Case01'']"
  let ?m = "snd (export_outputs (?c @ [OUTPUTS_FOLDER_NAME]) (total_output 7) fs_matching)"
  let ?u = "snd (export_outputs (?c @ [OUTPUTS_FOLDER_NAME]) (total_output 7) fs_unsupported)"
  have l: "load_settings ?c fs_matching = Inr settings_10_3_off"
          "load_settings ?c fs_unsupported = Inr settings_10_3_off" by code_simp+
  have m: "main exact_ext (Some settings_10_3_off) fs_matching = (Inr (total_output 7), fs_matching)"
          "main exact_ext (Some settings_10_3_off) fs_unsupported =
             (Inr (total_output 7), fs_unsupported)" by code_simp+
  have e: "export_outputs (?c @ [OUTPUTS_FOLDER_NAME]) (total_output 7) fs_matching = (Inr (), ?m)"
          "export_outputs (?c @ [OUTPUTS_FOLDER_NAME]) (total_output 7) fs_unsupported = (Inr (), ?u)"
    by code_simp+
  have c: "compare_outputs exact_ext (?c @ [EXPECTED_OUTPUTS_FOLDER]) (?c @ [OUTPUTS_FOLDER_NAME]) ?m
             = Inr ()"
          "compare_outputs exact_ext (?c @ [EXPECTED_OUTPUTS_FOLDER]) (?c @ [OUTPUTS_FOLDER_NAME]) ?u
             = Inl (ValueError ''File extension '.txt' is not supported.'')"
    by code_simp+
  from compare_cleanup_only_on_success [OF l(1) m(1) e(1)] c(1)
  have 1: "fst (run_case exact_ext ''compare'' ?c fs_matching) = Inr () \<and>
        lookup (snd (run_case exact_ext ''compare'' ?c fs_matching)) (?c @ [OUTPUTS_FOLDER_NAME]) = None"
    by blast
  from compare_cleanup_only_on_success [OF l(2) m(2) e(2)] c(2)
  have 2: "run_case exact_ext ''compare'' ?c fs_unsupported =
             (Inl (ValueError ''File extension '.txt' is not supported.''), ?u) \<and>
           is_dir ?u (?c @ [OUTPUTS_FOLDER_NAME])"
    by blast
  from 1 2 show ?thesis by (simp add: OUTPUTS_FOLDER_NAME_def)
qed

text \<open>
  A case whose expected outputs hold a \<open>.txt\<close> file: the run in compare mode raises the
  error of the unsupported extension, and \<open>TempOutputs\<close> is still there afterwards.
\<close>

theorem temp_outputs_left_counterexample:
  "fst (test_snapshots exact_ext ''compare'' fs_unsupported) =
     Inl (ValueError ''File extension '.txt' is not supported.'') \<and>
   is_dir (snd (test_snapshots exact_ext ''compare'' fs_unsupported))
     (SNAPSHOTS_DIR @ [''Case01'', OUTPUTS_FOLDER_NAME])"
  by code_simp

lemma assert_file_reads:
  assumes "read_file fs out = read_file fs' out" and "read_file fs expected = read_file fs' expected"
  shows "assert_file X out expected fs = assert_file X out expected fs'"
  unfolding assert_file_def assert_csv_def assert_json_def assert_npz_def read_csv_def
    json_load_def np_load_def assms ..

text \<open>
  C10. \<open>compare_outputs\<close> reads the tree of the expected outputs and, for each file in it,
  the file of the same relative path in the outputs folder, and nothing else: two file
  systems that agree on these give the same verdict. Files that only the outputs folder
  holds play no part, and a comparison that succeeds still succeeds with them.
\<close>
theorem compare_outputs_one_sided:
  assumes "walked_files fs expected_base = walked_files fs' expected_base"
    and "\<forall>rel \<in> set (walked_files fs expected_base).
           read_file fs (expected_base @ rel) = read_file fs' (expected_base @ rel) \<and>
           read_file fs (out_base @ rel) = read_file fs' (out_base @ rel)"
  shows "compare_outputs X expected_base out_base fs = compare_outputs X expected_base out_base fs'"
proof -
  have "assert_files X expected_base out_base fs rels = assert_files X expected_base out_base fs' rels"
    if "set rels \<subseteq> set (walked_files fs expected_base)" for rels
    using that
  proof (induction rels)
    case Nil
    then show ?case by simp
  next
    case (Cons rel rels)
    with assms(2) have "assert_file X (out_base @ rel) (expected_base @ rel) fs =
                        assert_file X (out_base @ rel) (expected_base @ rel) fs'"
      by (intro assert_file_reads) simp_all
    with Cons show ?case by (simp split: sum.splits)
  qed
  then show ?thesis unfolding compare_outputs_def assms(1) [symmetric] by simp
qed

theorem compare_outputs_one_sided_witness:
  "compare_outputs exact_ext [''ExpectedOutputs''] [''TempOutputs'']
     (fs_outputs [(''df.csv'', File (CsvData (total_frame 7)))]) = Inr () \<and>
   compare_outputs exact_ext [''ExpectedOutputs''] [''TempOutputs'']
     (fs_outputs [(''df.csv'', File (CsvData (total_frame 7))),
                  (''extra.csv'', File (CsvData (total_frame 99))),
                  (''notes.txt'', File (RawData ''seven'')),
                  (''more'', Dir [(''deep.json'', File (JsonData PNone))])]) = Inr ()"
proof -
  let ?a = "fs_outputs [(''df.csv'', File (CsvData (total_frame 7)))]"
  let ?b = "fs_outputs [(''df.csv'', File (CsvData (total_frame 7))),
                  (''extra.csv'', File (CsvData (total_frame 99))),
                  (''notes.txt'', File (RawData ''seven'')),
                  (''more'', Dir [(''deep.json'', File (JsonData PNone))])]"
  have w: "walked_files ?a [''ExpectedOutputs''] = [[''df.csv'']]"
          "walked_files ?b [''ExpectedOutputs''] = [[''df.csv'']]" by code_simp+
  have r: "read_file ?a [''ExpectedOutputs'', ''df.csv''] =
             read_file ?b [''ExpectedOutputs'', ''df.csv'']"
          "read_file ?a [''TempOutputs'', ''df.csv''] =
             read_file ?b [''TempOutputs'', ''df.csv'']" by code_simp+
  have a: "compare_outputs exact_ext [''ExpectedOutputs''] [''TempOutputs''] ?a = Inr ()"
    by code_simp
  have "compare_outputs exact_ext [''ExpectedOutputs''] [''TempOutputs''] ?a =
        compare_outputs exact_ext [''ExpectedOutputs''] [''TempOutputs''] ?b"
    by (rule compare_outputs_one_sided) (simp_all add: w r)
  with a show ?thesis by simp
qed

end
